theory Spec2Isabelle
  imports Main "HOL-Library.AList"
begin

section \<open>Python values and containers\<close>

text \<open>
  The exceptions the modelled code can raise. A function that can raise returns
  \<open>error + 'a\<close>, with \<open>Inl\<close> for the exception.
\<close>

datatype error =
    IndexError | KeyError | ValueError | TypeError | ParameterException | NoSuchSlaveException

text \<open>A loop whose body can raise: the first exception ends the loop.\<close>

fun foldE :: "('a \<Rightarrow> 's \<Rightarrow> error + 's) \<Rightarrow> 'a list \<Rightarrow> 's \<Rightarrow> error + 's" where
  "foldE f [] s = Inr s"
| "foldE f (x # xs) s = (case f x s of Inl e \<Rightarrow> Inl e | Inr s' \<Rightarrow> foldE f xs s')"

text \<open>A list comprehension whose element expression can raise.\<close>

fun mapE :: "('a \<Rightarrow> error + 'b) \<Rightarrow> 'a list \<Rightarrow> error + 'b list" where
  "mapE f [] = Inr []"
| "mapE f (x # xs) =
     (case f x of Inl e \<Rightarrow> Inl e
      | Inr y \<Rightarrow> (case mapE f xs of Inl e \<Rightarrow> Inl e | Inr ys \<Rightarrow> Inr (y # ys)))"

text \<open>\<open>range(lo, hi)\<close>: the integers from \<open>lo\<close> up to \<open>hi - 1\<close>.\<close>

definition py_range :: "int \<Rightarrow> int \<Rightarrow> int list" where
  "py_range lo hi = [lo..hi - 1]"

text \<open>
  \<open>xs[i]\<close>, \<open>xs[i] = v\<close> and \<open>xs.insert(i, v)\<close> on a list: a negative index counts from
  the end; reading and writing out of range raise IndexError, inserting clamps.
\<close>

definition list_position :: "nat \<Rightarrow> int \<Rightarrow> nat option" where
  "list_position n i =
     (if 0 \<le> i \<and> i < int n then Some (nat i)
      else if i < 0 \<and> - int n \<le> i then Some (nat (int n + i))
      else None)"

definition py_index :: "'a list \<Rightarrow> int \<Rightarrow> error + 'a" where
  "py_index xs i =
     (case list_position (length xs) i of
        None \<Rightarrow> Inl IndexError
      | Some k \<Rightarrow> Inr (xs ! k))"

definition py_setitem :: "'a list \<Rightarrow> int \<Rightarrow> 'a \<Rightarrow> error + 'a list" where
  "py_setitem xs i v =
     (case list_position (length xs) i of
        None \<Rightarrow> Inl IndexError
      | Some k \<Rightarrow> Inr (xs[k := v]))"

definition slice_bound :: "nat \<Rightarrow> int \<Rightarrow> nat" where
  "slice_bound n i = (if i < 0 then nat (max 0 (int n + i)) else min (nat i) n)"

definition py_insert :: "'a list \<Rightarrow> int \<Rightarrow> 'a \<Rightarrow> 'a list" where
  "py_insert xs i v = (let k = slice_bound (length xs) i in take k xs @ [v] @ drop k xs)"

text \<open>\<open>xs[lo:hi]\<close> and \<open>xs[lo:hi] = vs\<close>: both bounds are clamped to the list.\<close>

definition py_slice :: "'a list \<Rightarrow> int \<Rightarrow> int \<Rightarrow> 'a list" where
  "py_slice xs lo hi =
     (let l = slice_bound (length xs) lo; h = slice_bound (length xs) hi
      in take (h - l) (drop l xs))"

definition py_slice_assign :: "'a list \<Rightarrow> int \<Rightarrow> int \<Rightarrow> 'a list \<Rightarrow> 'a list" where
  "py_slice_assign xs lo hi vs =
     (let l = slice_bound (length xs) lo; h = max l (slice_bound (length xs) hi)
      in take l xs @ vs @ drop h xs)"

text \<open>
  A dictionary is an association list with distinct keys: \<open>d[k]\<close> raises KeyError on a
  missing key, \<open>d[k] = v\<close> replaces the entry of \<open>k\<close> or adds one.
\<close>

definition py_dict_get :: "('k \<times> 'v) list \<Rightarrow> 'k \<Rightarrow> error + 'v" where
  "py_dict_get d k = (case map_of d k of None \<Rightarrow> Inl KeyError | Some v \<Rightarrow> Inr v)"

definition py_dict_set :: "('k \<times> 'v) list \<Rightarrow> 'k \<Rightarrow> 'v \<Rightarrow> ('k \<times> 'v) list" where
  "py_dict_set d k v = AList.update k v d"

text \<open>
  \<open>read_collection_data\<close> returns two lists for a sequential context and two
  dictionaries keyed by address for a sparse one; the callers use \<open>len\<close>, indexing and
  iteration on whichever they get.
\<close>

datatype 'a coll = PyList "'a list" | PyDict "(int \<times> 'a) list"

fun py_len :: "'a coll \<Rightarrow> int" where
  "py_len (PyList xs) = int (length xs)"
| "py_len (PyDict d) = int (length d)"

fun py_getitem :: "'a coll \<Rightarrow> int \<Rightarrow> error + 'a" where
  "py_getitem (PyList xs) i = py_index xs i"
| "py_getitem (PyDict d) k = py_dict_get d k"

text \<open>Iterating a list yields its elements, iterating a dictionary its keys.\<close>

fun py_iter :: "int coll \<Rightarrow> int list" where
  "py_iter (PyList xs) = xs"
| "py_iter (PyDict d) = map fst d"

section \<open>constants.py\<close>

definition TYPE_HOLDING_REGISTER :: string where "TYPE_HOLDING_REGISTER = ''hr''"
definition TYPE_INPUT_REGISTER :: string where "TYPE_INPUT_REGISTER = ''ir''"
definition TYPE_DISCRETE_INPUT :: string where "TYPE_DISCRETE_INPUT = ''di''"
definition TYPE_COIL :: string where "TYPE_COIL = ''co''"

definition REGISTER_TYPES :: "string list" where
  "REGISTER_TYPES =
     [TYPE_HOLDING_REGISTER, TYPE_INPUT_REGISTER, TYPE_DISCRETE_INPUT, TYPE_COIL]"

definition TEMPLATE_PARSER_DESC :: string where "TEMPLATE_PARSER_DESC = ''/*DEVICE;''"
definition TEMPLATE_PARSER_NETWORK :: string where "TEMPLATE_PARSER_NETWORK = ''deviceId''"
definition TEMPLATE_PARSER_REGISTER_DEF :: string where "TEMPLATE_PARSER_REGISTER_DEF = ''paramId''"
definition TEMPLATE_PARSER_REG_UID :: string where "TEMPLATE_PARSER_REG_UID = ''paramId''"
definition TEMPLATE_PARSER_REG_ADDRESS :: string where "TEMPLATE_PARSER_REG_ADDRESS = ''address''"
definition TEMPLATE_PARSER_SEPARATOR :: char where "TEMPLATE_PARSER_SEPARATOR = CHR '';''"
definition TEMPLATE_PARSER_SLAVE_ID :: string where "TEMPLATE_PARSER_SLAVE_ID = ''networkId''"
definition TEMPLATE_PARSER_NOT_ZERO_MODE :: string where
  "TEMPLATE_PARSER_NOT_ZERO_MODE = ''plcBaseAddress''"
definition TEMPLATE_PARSER_REG_TYPE :: string where "TEMPLATE_PARSER_REG_TYPE = ''registerType''"
definition TEMPLATE_PARSER_TYPE_HOLDING_REGISTER :: string where
  "TEMPLATE_PARSER_TYPE_HOLDING_REGISTER = ''holding''"
definition TEMPLATE_PARSER_TYPE_INPUT_REGISTER :: string where
  "TEMPLATE_PARSER_TYPE_INPUT_REGISTER = ''analog''"
definition TEMPLATE_PARSER_TYPE_DISCRETE_INPUT :: string where
  "TEMPLATE_PARSER_TYPE_DISCRETE_INPUT = ''input''"
definition TEMPLATE_PARSER_TYPE_COIL :: string where "TEMPLATE_PARSER_TYPE_COIL = ''coil''"

section \<open>The data model\<close>

text \<open>A timestamp is a string or null.\<close>

type_synonym timestamp = "string option"

text \<open>
  The messages written to the log at warning, error and info level, one constructor
  per format string with its arguments. Debug messages are not modelled.
\<close>

datatype log_event =
    Rows_mismatch int int  \<comment> \<open>Got .. rows from ClearBlade, expecting .. registers\<close>
  | Count_mismatch int int  \<comment> \<open>Register count mismatch .. requested but .. returned\<close>
  | Filling string int int  \<comment> \<open>Filling .. register .. with value ..\<close>
  | Invalid_slave_id int  \<comment> \<open>Invalid Modbus Slave ID ..\<close>
  | Invalid_address int  \<comment> \<open>Invalid Modbus address ..\<close>
  | Unsupported_register_type string  \<comment> \<open>Unsupported registerType ..\<close>
  | No_proxy_ip  \<comment> \<open>No proxy IP address specified, ..\<close>
  | Duplicate_slave_id int  \<comment> \<open>Duplicate slave_id .. found in RTUs collection\<close>

text \<open>
  A row of the data collection as the query returns it, and an entry of the list that
  \<open>read_collection_data\<close> works on: a returned row, or the dictionary
  \<open>{COL_REG_DATA: fill}\<close> that gap filling inserts, which has no address and no
  timestamp.
\<close>

record data_row =
  register_address :: int
  register_data :: int
  row_timestamp :: timestamp

datatype reg_entry = Row data_row | Filler int

fun entry_address :: "reg_entry \<Rightarrow> error + int" where
  "entry_address (Row r) = Inr (register_address r)"
| "entry_address (Filler f) = Inl KeyError"

fun entry_data :: "reg_entry \<Rightarrow> error + int" where
  "entry_data (Row r) = Inr (register_data r)"
| "entry_data (Filler f) = Inr f"

fun entry_timestamp :: "reg_entry \<Rightarrow> error + timestamp" where
  "entry_timestamp (Row r) = Inr (row_timestamp r)"
| "entry_timestamp (Filler f) = Inl KeyError"

text \<open>The \<open>fill\<close> argument of \<open>read_collection_data\<close>: None, an integer or anything else.\<close>

datatype fill = Fill_None | Fill_Int int | Fill_Other

text \<open>The device identification of a slave context.\<close>

record device_identity =
  VendorName :: string
  ProductCode :: string
  VendorUrl :: string
  ProductName :: string
  ModelName :: string
  MajorMinorRevision :: string

text \<open>
  The two register blocks, with the fields that the base classes of the library store
  and the modelled code uses: the start address and the values. The keys of a sparse
  block are the addresses of the descriptors, which can be None.
\<close>

record seq_block =
  sq_address :: int
  sq_values :: "int list"
  sq_timestamps :: "timestamp list"
  sq_register_type :: string

record sparse_block =
  sp_values :: "(int option \<times> int) list"
  sp_timestamps :: "(int option \<times> timestamp) list"
  sp_register_type :: string

datatype datablock = Sequential seq_block | Sparse sparse_block

text \<open>The fields of a slave context; \<open>store\<close> maps h, i, d, c to a block or None.\<close>

record slave_context =
  ip_proxy :: string
  ip_port :: int
  slave_id :: int
  zero_mode :: bool
  identity :: device_identity
  sparse :: bool
  store :: "(string \<times> datablock option) list"

text \<open>An update sent to the data collection: the four filters and the new data.\<close>

record remote_update =
  upd_ip_proxy :: string
  upd_slave_id :: int
  upd_register_type :: string
  upd_address :: int
  upd_data :: int

section \<open>store.py\<close>

subsection \<open>read_collection_data and write_collection_data\<close>

text \<open>
  The rows that \<open>collection.getItems(query)\<close> returns are an input, \<open>items\<close>. The body
  of the loop over the addresses of a sequential read works on the list of entries and
  the two result lists.
\<close>

definition read_sequential_step ::
  "string \<Rightarrow> fill \<Rightarrow> int \<Rightarrow>
   reg_entry list \<times> int list \<times> timestamp list \<times> log_event list \<Rightarrow>
   error + reg_entry list \<times> int list \<times> timestamp list \<times> log_event list" where
  "read_sequential_step register_type fl addr st =
     (case st of (reg_list, vals, tss, lg) \<Rightarrow>
      (case py_index reg_list addr of Inl e \<Rightarrow> Inl e | Inr entry \<Rightarrow>
       (case entry_address entry of Inl e \<Rightarrow> Inl e | Inr a \<Rightarrow>
        (case (if a \<noteq> addr then
                 (case fl of
                    Fill_None \<Rightarrow> Inl ParameterException
                  | Fill_Int f \<Rightarrow>
                      Inr (py_insert reg_list addr (Filler f), lg @ [Filling register_type addr f])
                  | Fill_Other \<Rightarrow> Inl ValueError)
               else Inr (reg_list, lg)) of
           Inl e \<Rightarrow> Inl e
         | Inr (reg_list', lg') \<Rightarrow>
           (case py_index reg_list' addr of Inl e \<Rightarrow> Inl e | Inr entry' \<Rightarrow>
            (case entry_data entry' of Inl e \<Rightarrow> Inl e | Inr d \<Rightarrow>
             (case entry_timestamp entry' of Inl e \<Rightarrow> Inl e | Inr t \<Rightarrow>
                Inr (reg_list', vals @ [d], tss @ [t], lg'))))))))"

definition read_sparse_step ::
  "reg_entry \<Rightarrow> (int \<times> int) list \<times> (int \<times> timestamp) list \<Rightarrow>
   error + (int \<times> int) list \<times> (int \<times> timestamp) list" where
  "read_sparse_step reg st =
     (case st of (vals, tss) \<Rightarrow>
      (case entry_address reg of Inl e \<Rightarrow> Inl e | Inr a \<Rightarrow>
       (case entry_data reg of Inl e \<Rightarrow> Inl e | Inr d \<Rightarrow>
        (case entry_timestamp reg of Inl e \<Rightarrow> Inl e | Inr t \<Rightarrow>
           Inr (py_dict_set vals a d, py_dict_set tss a t)))))"

definition read_collection_data ::
  "slave_context \<Rightarrow> string \<Rightarrow> int \<Rightarrow> int \<Rightarrow> fill \<Rightarrow> data_row list \<Rightarrow>
   error + (int coll \<times> timestamp coll) \<times> log_event list" where
  "read_collection_data context register_type address count fl items =
     (let reg_list = map Row (sort_key register_address items);
          lg = (if int (length reg_list) \<noteq> count
                then [Rows_mismatch (int (length reg_list)) count] else [])
      in if sparse context then
           (case foldE read_sparse_step reg_list ([], []) of
              Inl e \<Rightarrow> Inl e
            | Inr (vals, tss) \<Rightarrow> Inr ((PyDict vals, PyDict tss), lg))
         else
           (case foldE (read_sequential_step register_type fl)
                   (py_range address (address + count)) (reg_list, [], [], lg) of
              Inl e \<Rightarrow> Inl e
            | Inr (reg_list', vals, tss, lg') \<Rightarrow> Inr ((PyList vals, PyList tss), lg')))"

definition write_collection_data ::
  "slave_context \<Rightarrow> string \<Rightarrow> int \<Rightarrow> int \<Rightarrow> remote_update" where
  "write_collection_data context register_type address data =
     \<lparr>upd_ip_proxy = ip_proxy context, upd_slave_id = slave_id context,
      upd_register_type = register_type, upd_address = address, upd_data = data\<rparr>"

subsection \<open>CbModbusSequentialDataBlock\<close>

text \<open>
  The constructor calls the constructor of the base class first. That one stores the
  address and the values and takes the default value from \<open>self.values[0]\<close>, which
  raises IndexError on an empty list of values.
\<close>

definition CbModbusSequentialDataBlock :: "string \<Rightarrow> int \<Rightarrow> int list \<Rightarrow> error + seq_block" where
  "CbModbusSequentialDataBlock register_type address vals =
     (case py_index vals 0 of
        Inl e \<Rightarrow> Inl e
      | Inr default_value \<Rightarrow>
          if register_type \<in> set REGISTER_TYPES then
            Inr \<lparr>sq_address = address, sq_values = vals,
                 sq_timestamps = map (\<lambda>i. None) (py_range 0 (int (length vals) - 1)),
                 sq_register_type = register_type\<rparr>
          else Inl ParameterException)"

text \<open>
  The body of the loop of \<open>getValues\<close>: \<open>i\<close> is the absolute address, \<open>j\<close> the position
  in the values read.
\<close>

definition seq_getValues_step ::
  "int coll \<Rightarrow> timestamp coll \<Rightarrow> int \<Rightarrow> int \<times> int list \<times> timestamp list \<Rightarrow>
   error + int \<times> int list \<times> timestamp list" where
  "seq_getValues_step vals tss i st =
     (case st of (j, self_values, self_timestamps) \<Rightarrow>
      (case py_getitem vals j of Inl e \<Rightarrow> Inl e | Inr v \<Rightarrow>
       (case py_setitem self_values i v of Inl e \<Rightarrow> Inl e | Inr self_values' \<Rightarrow>
        (case py_getitem tss i of Inl e \<Rightarrow> Inl e | Inr t \<Rightarrow>
         (case py_setitem self_timestamps i t of Inl e \<Rightarrow> Inl e | Inr self_timestamps' \<Rightarrow>
            Inr (j + 1, self_values', self_timestamps'))))))"

definition seq_getValues ::
  "slave_context \<Rightarrow> seq_block \<Rightarrow> data_row list \<Rightarrow> int \<Rightarrow> int \<Rightarrow>
   error + int list \<times> seq_block \<times> log_event list" where
  "seq_getValues context self items address count =
     (let start = address - sq_address self in
      case read_collection_data context (sq_register_type self) address count (Fill_Int 0) items of
        Inl e \<Rightarrow> Inl e
      | Inr ((vals, tss), lg) \<Rightarrow>
          let mismatch = (py_len vals \<noteq> count);
              lg' = (if mismatch then lg @ [Count_mismatch count (py_len vals)] else lg);
              count' = (if mismatch then py_len vals else count)
          in (case foldE (seq_getValues_step vals tss) (py_range address (address + count'))
                     (0, sq_values self, sq_timestamps self) of
                Inl e \<Rightarrow> Inl e
              | Inr (j, self_values, self_timestamps) \<Rightarrow>
                  Inr (py_slice self_values start (start + count'),
                       self\<lparr>sq_values := self_values, sq_timestamps := self_timestamps\<rparr>,
                       lg')))"

text \<open>The argument of \<open>setValues\<close> is a single value or a list.\<close>

datatype values_arg = Single int | Many "int list"

fun as_list :: "values_arg \<Rightarrow> int list" where
  "as_list (Single v) = [v]"
| "as_list (Many vs) = vs"

definition seq_setValues_step ::
  "slave_context \<Rightarrow> string \<Rightarrow> int \<Rightarrow> int list \<Rightarrow> int \<Rightarrow> remote_update list \<Rightarrow>
   error + remote_update list" where
  "seq_setValues_step context register_type address vals i writes =
     (case py_index vals i of
        Inl e \<Rightarrow> Inl e
      | Inr v \<Rightarrow> Inr (writes @ [write_collection_data context register_type (address + i) v]))"

definition seq_setValues ::
  "slave_context \<Rightarrow> seq_block \<Rightarrow> int \<Rightarrow> values_arg \<Rightarrow> error + seq_block \<times> remote_update list" where
  "seq_setValues context self address arg =
     (let vals = as_list arg;
          start = address - sq_address self;
          self_values = py_slice_assign (sq_values self) start (start + int (length vals)) vals
      in case foldE (seq_setValues_step context (sq_register_type self) address vals)
                (py_range address (int (length vals) - 1)) [] of
           Inl e \<Rightarrow> Inl e
         | Inr writes \<Rightarrow> Inr (self\<lparr>sq_values := self_values\<rparr>, writes))"

definition seq_get_timestamps :: "seq_block \<Rightarrow> int \<Rightarrow> int \<Rightarrow> timestamp list" where
  "seq_get_timestamps self address count =
     (let start = address - sq_address self
      in py_slice (sq_timestamps self) start (start + count))"

subsection \<open>CbModbusSparseDataBlock\<close>

definition CbModbusSparseDataBlock ::
  "string \<Rightarrow> (int option \<times> int) list \<Rightarrow> error + sparse_block" where
  "CbModbusSparseDataBlock register_type vals =
     (if register_type \<in> set REGISTER_TYPES then
        Inr \<lparr>sp_values = vals,
             sp_timestamps = fold (\<lambda>addr ts. py_dict_set ts addr None) (map fst vals) [],
             sp_register_type = register_type\<rparr>
      else Inl ParameterException)"

text \<open>
  The body of the inner loop of \<open>getValues\<close>, for one key of the values read and one
  address of the block.
\<close>

definition sparse_merge_step ::
  "int coll \<Rightarrow> timestamp coll \<Rightarrow> int \<Rightarrow> int option \<Rightarrow>
   (int option \<times> int) list \<times> (int option \<times> timestamp) list \<Rightarrow>
   error + (int option \<times> int) list \<times> (int option \<times> timestamp) list" where
  "sparse_merge_step vals tss key addr st =
     (case st of (self_values, self_timestamps) \<Rightarrow>
      if Some key = addr then
        (case py_getitem vals key of Inl e \<Rightarrow> Inl e | Inr v \<Rightarrow>
         (case py_getitem tss key of Inl e \<Rightarrow> Inl e | Inr t \<Rightarrow>
            Inr (py_dict_set self_values addr v, py_dict_set self_timestamps addr t)))
      else Inr st)"

definition sparse_merge_key ::
  "int coll \<Rightarrow> timestamp coll \<Rightarrow> int \<Rightarrow>
   (int option \<times> int) list \<times> (int option \<times> timestamp) list \<Rightarrow>
   error + (int option \<times> int) list \<times> (int option \<times> timestamp) list" where
  "sparse_merge_key vals tss key st =
     foldE (sparse_merge_step vals tss key) (map fst (fst st)) st"

definition sparse_getValues ::
  "slave_context \<Rightarrow> sparse_block \<Rightarrow> data_row list \<Rightarrow> int \<Rightarrow> int \<Rightarrow>
   error + int list \<times> sparse_block \<times> log_event list" where
  "sparse_getValues context self items address count =
     (case read_collection_data context (sp_register_type self) address count (Fill_Int 0) items of
        Inl e \<Rightarrow> Inl e
      | Inr ((vals, tss), lg) \<Rightarrow>
          let lg' = (if py_len vals \<noteq> count
                     then lg @ [Count_mismatch count (py_len vals)] else lg)
          in (case foldE (sparse_merge_key vals tss) (py_iter vals)
                     (sp_values self, sp_timestamps self) of
                Inl e \<Rightarrow> Inl e
              | Inr (self_values, self_timestamps) \<Rightarrow>
                  (case mapE (\<lambda>i. py_dict_get self_values (Some i))
                          (py_range address (address + count)) of
                     Inl e \<Rightarrow> Inl e
                   | Inr result \<Rightarrow>
                       Inr (result,
                            self\<lparr>sp_values := self_values, sp_timestamps := self_timestamps\<rparr>,
                            lg'))))"

section \<open>Strings\<close>

text \<open>
  The template text is a Unicode string; a character here is a code point below 256.
  \<open>strip\<close> removes the white space of that range at both ends, \<open>splitlines\<close> breaks at
  its line boundaries (a carriage return followed by a line feed is one boundary) and
  \<open>split\<close> cuts at every occurrence of the separator.
\<close>

definition ord :: "char \<Rightarrow> nat" where
  "ord c = of_char c"

definition is_space :: "char \<Rightarrow> bool" where
  "is_space c = (ord c \<in> set [9, 10, 11, 12, 13, 28, 29, 30, 31, 32, 133, 160])"

definition is_linebreak :: "char \<Rightarrow> bool" where
  "is_linebreak c = (ord c \<in> set [10, 11, 12, 13, 28, 29, 30, 133])"

definition strip :: "string \<Rightarrow> string" where
  "strip s = rev (dropWhile is_space (rev (dropWhile is_space s)))"

fun splitlines_from :: "string \<Rightarrow> string \<Rightarrow> string list" where
  "splitlines_from cur [] = (if cur = [] then [] else [cur])"
| "splitlines_from cur (c # cs) =
     (if is_linebreak c then
        (case cs of
           d # ds \<Rightarrow>
             if ord c = 13 \<and> ord d = 10 then cur # splitlines_from [] ds
             else cur # splitlines_from [] cs
         | [] \<Rightarrow> cur # splitlines_from [] cs)
      else splitlines_from (cur @ [c]) cs)"

definition splitlines :: "string \<Rightarrow> string list" where
  "splitlines s = splitlines_from [] s"

fun split_from :: "char \<Rightarrow> string \<Rightarrow> string \<Rightarrow> string list" where
  "split_from sep cur [] = [cur]"
| "split_from sep cur (c # cs) =
     (if c = sep then cur # split_from sep [] cs else split_from sep (cur @ [c]) cs)"

definition py_split :: "char \<Rightarrow> string \<Rightarrow> string list" where
  "py_split sep s = split_from sep [] s"

text \<open>
  \<open>int(s)\<close> on a string: white space at both ends is ignored, then an optional sign
  and at least one decimal digit; anything else raises ValueError.
\<close>

definition is_digit :: "char \<Rightarrow> bool" where
  "is_digit c = (48 \<le> ord c \<and> ord c \<le> 57)"

definition digit_val :: "char \<Rightarrow> int" where
  "digit_val c = int (ord c) - 48"

definition py_int :: "string \<Rightarrow> error + int" where
  "py_int s =
     (let t = strip s;
          signed = (t \<noteq> [] \<and> (hd t = CHR ''-'' \<or> hd t = CHR ''+''));
          ds = (if signed then tl t else t)
      in if ds \<noteq> [] \<and> list_all is_digit ds then
           Inr ((if signed \<and> hd t = CHR ''-'' then - 1 else 1)
                * foldl (\<lambda>a c. 10 * a + digit_val c) 0 ds)
         else Inl ValueError)"

text \<open>\<open>lower\<close>: only the letters A to Z become ASCII letters.\<close>

definition py_lower :: "char \<Rightarrow> char" where
  "py_lower c = (if 65 \<le> ord c \<and> ord c \<le> 90 then char_of (ord c + 32) else c)"

text \<open>\<open>s[0:len(tag)] == tag\<close> and \<open>s[len(tag) + 1:]\<close>.\<close>

definition has_tag :: "string \<Rightarrow> string \<Rightarrow> bool" where
  "has_tag tag s = (take (length tag) s = tag)"

definition after_tag :: "string \<Rightarrow> string \<Rightarrow> string" where
  "after_tag tag s = drop (length tag + 1) s"

section \<open>context.py\<close>

subsection \<open>The template parser\<close>

record RegisterBlockConfig =
  param_id :: "int option"
  reg_address :: "int option"
  reg_register_type :: "string option"
  block_size :: int

definition new_RegisterBlockConfig :: "int option \<Rightarrow> int option \<Rightarrow> RegisterBlockConfig" where
  "new_RegisterBlockConfig pid addr =
     \<lparr>param_id = pid, reg_address = addr, reg_register_type = None, block_size = 1\<rparr>"

text \<open>
  The state of the loop over the lines: the slave context being filled in, the local
  list \<open>registers\<close> and the log.
\<close>

record parse_state =
  ps_self :: slave_context
  ps_registers :: "RegisterBlockConfig list"
  ps_log :: "log_event list"

text \<open>One field of a device description line.\<close>

definition device_field :: "string \<Rightarrow> parse_state \<Rightarrow> error + parse_state" where
  "device_field id_tag st =
     (let self = ps_self st; ident = identity self in
      if has_tag ''VendorName'' id_tag then
        Inr (st\<lparr>ps_self := self\<lparr>identity :=
               ident\<lparr>VendorName := strip (after_tag ''VendorName'' id_tag)\<rparr>\<rparr>\<rparr>)
      else if has_tag ''ProductCode'' id_tag then
        Inr (st\<lparr>ps_self := self\<lparr>identity :=
               ident\<lparr>ProductCode := strip (after_tag ''ProductCode'' id_tag)\<rparr>\<rparr>\<rparr>)
      else if has_tag ''VendorUrl'' id_tag then
        Inr (st\<lparr>ps_self := self\<lparr>identity :=
               ident\<lparr>VendorUrl := strip (after_tag ''VendorUrl'' id_tag)\<rparr>\<rparr>\<rparr>)
      else if has_tag ''ProductName'' id_tag then
        Inr (st\<lparr>ps_self := self\<lparr>identity :=
               ident\<lparr>ProductName := strip (after_tag ''ProductName'' id_tag)\<rparr>\<rparr>\<rparr>)
      else if has_tag ''ModelName'' id_tag then
        Inr (st\<lparr>ps_self := self\<lparr>identity :=
               ident\<lparr>ModelName := strip (after_tag ''ModelName'' id_tag)\<rparr>\<rparr>\<rparr>)
      else if has_tag ''MajorMinorRevision'' id_tag then
        Inr (st\<lparr>ps_self := self\<lparr>identity :=
               ident\<lparr>MajorMinorRevision := strip (after_tag ''MajorMinorRevision'' id_tag)\<rparr>\<rparr>\<rparr>)
      else if map py_lower (take (length ''sparse'') id_tag) = ''sparse'' then
        (case py_int (strip (after_tag ''sparse'' id_tag)) of
           Inl e \<Rightarrow> Inl e
         | Inr n \<Rightarrow> Inr (st\<lparr>ps_self := self\<lparr>sparse := (n \<noteq> 0)\<rparr>\<rparr>))
      else Inr st)"

text \<open>
  One field of a network identity line. \<open>net_id in range(1, 255)\<close> is the test
  \<open>1 \<le> net_id < 255\<close>.
\<close>

definition network_field :: "string \<Rightarrow> parse_state \<Rightarrow> error + parse_state" where
  "network_field i st =
     (let self = ps_self st in
      if has_tag TEMPLATE_PARSER_SLAVE_ID i then
        (case py_int (strip (after_tag TEMPLATE_PARSER_SLAVE_ID i)) of
           Inl e \<Rightarrow> Inl e
         | Inr net_id \<Rightarrow>
             if 1 \<le> net_id \<and> net_id < 255 then
               (case py_int (after_tag TEMPLATE_PARSER_SLAVE_ID i) of
                  Inl e \<Rightarrow> Inl e
                | Inr n \<Rightarrow> Inr (st\<lparr>ps_self := self\<lparr>slave_id := n\<rparr>\<rparr>))
             else Inr (st\<lparr>ps_log := ps_log st @ [Invalid_slave_id net_id]\<rparr>))
      else if has_tag TEMPLATE_PARSER_NOT_ZERO_MODE i then
        (case py_int (strip (after_tag TEMPLATE_PARSER_NOT_ZERO_MODE i)) of
           Inl e \<Rightarrow> Inl e
         | Inr plc \<Rightarrow> Inr (st\<lparr>ps_self := self\<lparr>zero_mode := (if plc = 1 then False else True)\<rparr>\<rparr>))
      else Inr st)"

text \<open>
  One field of a register definition line. The locals \<open>reg_exists\<close> and \<open>this_reg\<close>
  of the line come first in the state. The loops over \<open>registers\<close> that assign a field
  of every entry whose \<open>param_id\<close> is \<open>this_reg\<close> are maps.
\<close>

definition set_address :: "int option \<Rightarrow> int \<Rightarrow> RegisterBlockConfig list \<Rightarrow> RegisterBlockConfig list" where
  "set_address this_reg addr registers =
     map (\<lambda>reg. if param_id reg = this_reg then reg\<lparr>reg_address := Some addr\<rparr> else reg) registers"

definition set_register_type ::
  "int option \<Rightarrow> string \<Rightarrow> RegisterBlockConfig list \<Rightarrow> RegisterBlockConfig list" where
  "set_register_type this_reg rt registers =
     map (\<lambda>reg. if param_id reg = this_reg then reg\<lparr>reg_register_type := Some rt\<rparr> else reg)
       registers"

definition register_field ::
  "string \<Rightarrow> bool \<times> int option \<times> parse_state \<Rightarrow> error + bool \<times> int option \<times> parse_state" where
  "register_field c lst =
     (case lst of (reg_exists, this_reg, st) \<Rightarrow>
      let registers = ps_registers st in
      if has_tag TEMPLATE_PARSER_REG_UID c then
        (case py_int (strip (after_tag TEMPLATE_PARSER_REG_UID c)) of
           Inl e \<Rightarrow> Inl e
         | Inr pid \<Rightarrow>
             let reg_exists' = (reg_exists \<or> list_ex (\<lambda>reg. Some pid = param_id reg) registers)
             in Inr (True, Some pid,
                     st\<lparr>ps_registers :=
                          (if \<not> reg_exists'
                           then registers @ [new_RegisterBlockConfig (Some pid) None]
                           else registers)\<rparr>))
      else if has_tag TEMPLATE_PARSER_REG_ADDRESS c then
        (case py_int (strip (after_tag TEMPLATE_PARSER_REG_ADDRESS c)) of
           Inl e \<Rightarrow> Inl e
         | Inr a \<Rightarrow>
             let addr = (if \<not> zero_mode (ps_self st) then a + 1 else a) in
             if 0 \<le> addr \<and> addr < 99999 + 1 then
               Inr (True, this_reg,
                    st\<lparr>ps_registers :=
                         (if \<not> reg_exists
                          then set_address this_reg addr registers
                               @ [new_RegisterBlockConfig None (Some addr)]
                          else set_address this_reg addr registers)\<rparr>)
             else Inr (reg_exists, this_reg, st\<lparr>ps_log := ps_log st @ [Invalid_address addr]\<rparr>))
      else if has_tag TEMPLATE_PARSER_REG_TYPE c then
        (let reg_type = strip (after_tag TEMPLATE_PARSER_REG_TYPE c) in
         if reg_type \<in> set [TEMPLATE_PARSER_TYPE_INPUT_REGISTER] then
           Inr (reg_exists, this_reg,
                st\<lparr>ps_registers := set_register_type this_reg TYPE_INPUT_REGISTER registers\<rparr>)
         else if reg_type \<in> set [TEMPLATE_PARSER_TYPE_HOLDING_REGISTER] then
           Inr (reg_exists, this_reg,
                st\<lparr>ps_registers := set_register_type this_reg TYPE_HOLDING_REGISTER registers\<rparr>)
         else if reg_type \<in> set [TEMPLATE_PARSER_TYPE_DISCRETE_INPUT] then
           Inr (reg_exists, this_reg,
                st\<lparr>ps_registers := set_register_type this_reg TYPE_DISCRETE_INPUT registers\<rparr>)
         else if reg_type \<in> set [TEMPLATE_PARSER_TYPE_COIL] then
           Inr (reg_exists, this_reg,
                st\<lparr>ps_registers := set_register_type this_reg TYPE_COIL registers\<rparr>)
         else Inr (reg_exists, this_reg,
                   st\<lparr>ps_log := ps_log st @ [Unsupported_register_type reg_type]\<rparr>))
      else Inr lst)"

text \<open>One line of the template, and the loop over the lines.\<close>

definition parse_line :: "string \<Rightarrow> parse_state \<Rightarrow> error + parse_state" where
  "parse_line line st =
     (if has_tag TEMPLATE_PARSER_DESC line then
        foldE device_field (py_split TEMPLATE_PARSER_SEPARATOR line) st
      else if has_tag TEMPLATE_PARSER_NETWORK line then
        foldE network_field (py_split TEMPLATE_PARSER_SEPARATOR line) st
      else if has_tag TEMPLATE_PARSER_REGISTER_DEF line then
        (case foldE register_field (py_split TEMPLATE_PARSER_SEPARATOR line) (False, None, st) of
           Inl e \<Rightarrow> Inl e
         | Inr (reg_exists, this_reg, st') \<Rightarrow> Inr st')
      else Inr st)"

definition parse_lines :: "string \<Rightarrow> slave_context \<Rightarrow> error + parse_state" where
  "parse_lines config_file self =
     foldE parse_line (splitlines config_file)
       \<lparr>ps_self = self, ps_registers = [], ps_log = []\<rparr>"

subsection \<open>The address space builder\<close>

text \<open>
  The eight collections that the loop over \<open>registers\<close> fills. A descriptor whose
  address was never assigned contributes the address None.
\<close>

record block_lists =
  hr_sparse_block :: "(int option \<times> int) list"
  ir_sparse_block :: "(int option \<times> int) list"
  di_sparse_block :: "(int option \<times> int) list"
  co_sparse_block :: "(int option \<times> int) list"
  hr_sequential :: "int option list"
  ir_sequential :: "int option list"
  di_sequential :: "int option list"
  co_sequential :: "int option list"

definition empty_block_lists :: block_lists where
  "empty_block_lists =
     \<lparr>hr_sparse_block = [], ir_sparse_block = [], di_sparse_block = [], co_sparse_block = [],
      hr_sequential = [], ir_sequential = [], di_sequential = [], co_sequential = []\<rparr>"

definition collect_register :: "bool \<Rightarrow> block_lists \<Rightarrow> RegisterBlockConfig \<Rightarrow> block_lists" where
  "collect_register is_sparse bl reg =
     (if reg_register_type reg = Some TYPE_HOLDING_REGISTER then
        (if is_sparse
         then bl\<lparr>hr_sparse_block := py_dict_set (hr_sparse_block bl) (reg_address reg) 0\<rparr>
         else bl\<lparr>hr_sequential := hr_sequential bl @ [reg_address reg]\<rparr>)
      else if reg_register_type reg = Some TYPE_INPUT_REGISTER then
        (if is_sparse
         then bl\<lparr>ir_sparse_block := py_dict_set (ir_sparse_block bl) (reg_address reg) 0\<rparr>
         else bl\<lparr>ir_sequential := ir_sequential bl @ [reg_address reg]\<rparr>)
      else if reg_register_type reg = Some TYPE_DISCRETE_INPUT then
        (if is_sparse
         then bl\<lparr>di_sparse_block := py_dict_set (di_sparse_block bl) (reg_address reg) 0\<rparr>
         else bl\<lparr>di_sequential := di_sequential bl @ [reg_address reg]\<rparr>)
      else
        (if is_sparse
         then bl\<lparr>co_sparse_block := py_dict_set (co_sparse_block bl) (reg_address reg) 0\<rparr>
         else bl\<lparr>co_sequential := co_sequential bl @ [reg_address reg]\<rparr>))"

definition setup_sparse_block :: "(int option \<times> int) list \<Rightarrow> string \<Rightarrow> error + datablock option" where
  "setup_sparse_block block register_type =
     (if register_type \<in> set REGISTER_TYPES \<and> length block > 0 then
        (case CbModbusSparseDataBlock register_type block of
           Inl e \<Rightarrow> Inl e
         | Inr b \<Rightarrow> Inr (Some (Sparse b)))
      else Inr None)"

text \<open>
  \<open>block.sort()\<close> followed by \<open>range(block[0], block[len(block)-1])\<close>: with an address
  None in the list one of the two raises TypeError.
\<close>

definition setup_sequential_block :: "int option list \<Rightarrow> string \<Rightarrow> error + datablock option" where
  "setup_sequential_block block register_type =
     (if register_type \<in> set REGISTER_TYPES \<and> length block > 0 then
        (case those block of
           None \<Rightarrow> Inl TypeError
         | Some addrs \<Rightarrow>
             let sorted_block = sort addrs in
             (case CbModbusSequentialDataBlock register_type (sorted_block ! 0)
                     (map (\<lambda>x. 0)
                        (py_range (sorted_block ! 0) (sorted_block ! (length sorted_block - 1)))) of
                Inl e \<Rightarrow> Inl e
              | Inr b \<Rightarrow> Inr (Some (Sequential b))))
      else Inr None)"

definition build_store :: "bool \<Rightarrow> block_lists \<Rightarrow> error + (string \<times> datablock option) list" where
  "build_store is_sparse bl =
     (if is_sparse then
        (case setup_sparse_block (hr_sparse_block bl) TYPE_HOLDING_REGISTER of Inl e \<Rightarrow> Inl e | Inr h \<Rightarrow>
         (case setup_sparse_block (ir_sparse_block bl) TYPE_INPUT_REGISTER of Inl e \<Rightarrow> Inl e | Inr i \<Rightarrow>
          (case setup_sparse_block (di_sparse_block bl) TYPE_DISCRETE_INPUT of Inl e \<Rightarrow> Inl e | Inr d \<Rightarrow>
           (case setup_sparse_block (co_sparse_block bl) TYPE_COIL of Inl e \<Rightarrow> Inl e | Inr c \<Rightarrow>
              Inr [(''h'', h), (''i'', i), (''d'', d), (''c'', c)]))))
      else
        (case setup_sequential_block (hr_sequential bl) TYPE_HOLDING_REGISTER of Inl e \<Rightarrow> Inl e | Inr h \<Rightarrow>
         (case setup_sequential_block (ir_sequential bl) TYPE_INPUT_REGISTER of Inl e \<Rightarrow> Inl e | Inr i \<Rightarrow>
          (case setup_sequential_block (di_sequential bl) TYPE_DISCRETE_INPUT of Inl e \<Rightarrow> Inl e | Inr d \<Rightarrow>
           (case setup_sequential_block (co_sequential bl) TYPE_COIL of Inl e \<Rightarrow> Inl e | Inr c \<Rightarrow>
              Inr [(''h'', h), (''i'', i), (''d'', d), (''c'', c)])))))"

text \<open>\<open>_parse_config\<close>: the loop over the lines, then the blocks of the four types.\<close>

definition parse_config :: "string \<Rightarrow> slave_context \<Rightarrow> error + slave_context \<times> log_event list" where
  "parse_config config_file self =
     (case parse_lines config_file self of
        Inl e \<Rightarrow> Inl e
      | Inr st \<Rightarrow>
          let self' = ps_self st;
              bl = foldl (collect_register (sparse self')) empty_block_lists (ps_registers st)
          in (case build_store (sparse self') bl of
                Inl e \<Rightarrow> Inl e
              | Inr st' \<Rightarrow> Inr (self'\<lparr>store := st'\<rparr>, ps_log st)))"

subsection \<open>The slave context and the server context\<close>

text \<open>
  A row of the configuration collection. The port and the unit id go through
  \<open>int(..)\<close>, so they are an integer or a string.
\<close>

datatype pyval = Int_val int | Str_val string

fun int_of_pyval :: "pyval \<Rightarrow> error + int" where
  "int_of_pyval (Int_val n) = Inr n"
| "int_of_pyval (Str_val s) = py_int s"

record config_row =
  cfg_ip_address :: string
  cfg_ip_port :: pyval
  cfg_slave_id :: pyval
  cfg_config_file :: string

definition default_identity :: device_identity where
  "default_identity =
     \<lparr>VendorName = [], ProductCode = [], VendorUrl = [], ProductName = [], ModelName = [],
      MajorMinorRevision = []\<rparr>"

definition ClearBladeModbusProxySlaveContext ::
  "config_row \<Rightarrow> error + slave_context \<times> log_event list" where
  "ClearBladeModbusProxySlaveContext config =
     (case int_of_pyval (cfg_ip_port config) of Inl e \<Rightarrow> Inl e | Inr port \<Rightarrow>
      (let lg = (if cfg_ip_address config = [] then [No_proxy_ip] else []) in
       case int_of_pyval (cfg_slave_id config) of Inl e \<Rightarrow> Inl e | Inr sid \<Rightarrow>
       (case parse_config (cfg_config_file config)
               \<lparr>ip_proxy = cfg_ip_address config, ip_port = port, slave_id = sid,
                zero_mode = True, identity = default_identity, sparse = False, store = []\<rparr> of
          Inl e \<Rightarrow> Inl e
        | Inr (self, lg') \<Rightarrow> Inr (self, lg @ lg'))))"

text \<open>
  \<open>_initialize_slaves\<close>: the rows that the query returns are an input. The state of
  the loop is the local list \<open>slaves\<close>, the mapping of the server context and the log.
  The server context is not in single mode, and \<open>self[slave_id] = ..\<close> is the
  \<open>__setitem__\<close> of the base class of the library: it stores the context under a
  unit id from 0 to 247 and raises NoSuchSlaveException for any other.
\<close>

definition initialize_slaves_step ::
  "config_row \<Rightarrow> int list \<times> (int \<times> slave_context) list \<times> log_event list \<Rightarrow>
   error + int list \<times> (int \<times> slave_context) list \<times> log_event list" where
  "initialize_slaves_step row st =
     (case st of (slaves, self, lg) \<Rightarrow>
      (case int_of_pyval (cfg_slave_id row) of Inl e \<Rightarrow> Inl e | Inr sid \<Rightarrow>
         if sid \<notin> set slaves then
           (case ClearBladeModbusProxySlaveContext row of
              Inl e \<Rightarrow> Inl e
            | Inr (context, lg') \<Rightarrow>
                if 0 \<le> sid \<and> sid \<le> 247 then
                  Inr (slaves @ [sid], py_dict_set self sid context, lg @ lg')
                else Inl NoSuchSlaveException)
         else Inr (slaves, self, lg @ [Duplicate_slave_id sid])))"

definition initialize_slaves ::
  "config_row list \<Rightarrow> error + (int \<times> slave_context) list \<times> log_event list" where
  "initialize_slaves rows =
     (case foldE initialize_slaves_step rows ([], [], []) of
        Inl e \<Rightarrow> Inl e
      | Inr (slaves, self, lg) \<Rightarrow> Inr (self, lg))"

section \<open>Example inputs\<close>

text \<open>
  A slave context in sequential mode as the constructor leaves it before parsing, the
  holding register block built from the addresses 5, 7 and 9, and a row of the data
  collection.
\<close>

definition example_context :: slave_context where
  "example_context =
     \<lparr>ip_proxy = ''192.168.1.200'', ip_port = 502, slave_id = 1, zero_mode = True,
      identity = default_identity, sparse = False, store = []\<rparr>"

definition example_block :: seq_block where
  "example_block =
     \<lparr>sq_address = 5, sq_values = [0, 0, 0, 0], sq_timestamps = [None, None, None],
      sq_register_type = ''hr''\<rparr>"

definition data_at :: "int \<Rightarrow> int \<Rightarrow> data_row" where
  "data_at a d =
     \<lparr>register_address = a, register_data = d, row_timestamp = Some ''01/21/2019 07:00:00''\<rparr>"

definition newline :: string where
  "newline = [CHR 0x0A]"

text \<open>
  A slave context in sparse mode and its holding register block with the addresses 5,
  7 and 9.
\<close>

definition example_sparse_context :: slave_context where
  "example_sparse_context = example_context\<lparr>sparse := True\<rparr>"

definition example_sparse_block :: sparse_block where
  "example_sparse_block =
     \<lparr>sp_values = [(Some 5, 0), (Some 7, 0), (Some 9, 0)],
      sp_timestamps = [(Some 5, None), (Some 7, None), (Some 9, None)],
      sp_register_type = ''hr''\<rparr>"

text \<open>
  Three rows of the configuration collection: the unit id 3 appears in the first and
  in the third row, and the template of the third row has a parameter id that is not a
  number.
\<close>

definition example_rows :: "config_row list" where
  "example_rows =
     [\<lparr>cfg_ip_address = ''192.168.1.200'', cfg_ip_port = Int_val 502, cfg_slave_id = Int_val 3,
       cfg_config_file =
         ''paramId=1;address=5;registerType=holding'' @ newline
         @ ''paramId=2;address=9;registerType=holding''\<rparr>,
      \<lparr>cfg_ip_address = ''192.168.1.201'', cfg_ip_port = Int_val 502, cfg_slave_id = Int_val 4,
       cfg_config_file = []\<rparr>,
      \<lparr>cfg_ip_address = ''192.168.1.202'', cfg_ip_port = Int_val 502, cfg_slave_id = Str_val ''3'',
       cfg_config_file = ''paramId=abc''\<rparr>]"





text \<open>
  A template with two register definition lines for the parameter id 12: the first
  gives the address 42 and the type holding, the second the type coil.
\<close>

definition example_merge_template :: string where
  "example_merge_template =
     ''paramId=12;address=42;registerType=holding'' @ newline @ ''paramId=12;registerType=coil''"

text \<open>
  A template in which the parameter id 12 is given two addresses on its first line and
  a third address and two register types on a later line, with a line for the
  parameter id 7 in between. A template whose second line for the parameter id 12 has
  an address that is not a number.
\<close>

definition example_reassign_template :: string where
  "example_reassign_template =
     ''paramId=12;address=42;address=43;registerType=holding'' @ newline
     @ ''paramId=7;address=1;registerType=analog'' @ newline
     @ ''paramId=12;address=44;registerType=coil;registerType=analog''"

definition example_merge_abort_template :: string where
  "example_merge_abort_template =
     ''paramId=12;address=42'' @ newline @ ''paramId=12;address=x''"

section \<open>Notions used to state the properties\<close>

text \<open>
  Whether a call returns, the unit id of a configuration row, the slave context that
  the constructor builds from a row, and the unit ids of a list of rows in the order
  in which they are first seen.
\<close>

fun succeeds :: "error + 'a \<Rightarrow> bool" where
  "succeeds (Inr x) = True"
| "succeeds (Inl e) = False"

definition unit_id :: "config_row \<Rightarrow> int" where
  "unit_id row = (case int_of_pyval (cfg_slave_id row) of Inr n \<Rightarrow> n | Inl e \<Rightarrow> 0)"

definition context_of :: "config_row \<Rightarrow> slave_context option" where
  "context_of row =
     (case ClearBladeModbusProxySlaveContext row of
        Inr (context, lg) \<Rightarrow> Some context
      | Inl e \<Rightarrow> None)"

definition first_seen :: "int list \<Rightarrow> int list" where
  "first_seen ids = rev (remdups (rev ids))"

text \<open>
  The row at position \<open>k\<close> is the first with its unit id. The rows can be initialised
  when the unit id of every row converts with \<open>int\<close>, and every row that is the first
  with its unit id has a unit id from 0 to 247 and a slave context that can be
  constructed.
\<close>

definition first_of :: "config_row list \<Rightarrow> nat \<Rightarrow> bool" where
  "first_of rows k = (unit_id (rows ! k) \<notin> set (map unit_id (take k rows)))"

definition rows_initializable :: "config_row list \<Rightarrow> bool" where
  "rows_initializable rows =
     list_all
       (\<lambda>k. succeeds (int_of_pyval (cfg_slave_id (rows ! k)))
            \<and> (first_of rows k \<longrightarrow>
                 succeeds (ClearBladeModbusProxySlaveContext (rows ! k))
                 \<and> 0 \<le> unit_id (rows ! k) \<and> unit_id (rows ! k) \<le> 247))
       [0..<length rows]"

text \<open>
  A template whose numeric fields are integer literals: in a device description line
  the value of every field tagged sparse, in a network identity line the value of every
  field tagged networkId or plcBaseAddress, and in a register definition line the value
  of every field tagged paramId or address converts with \<open>int\<close>.
\<close>

definition int_literal :: "string \<Rightarrow> bool" where
  "int_literal s = succeeds (py_int s)"

definition device_field_ok :: "string \<Rightarrow> bool" where
  "device_field_ok f =
     (map py_lower (take (length ''sparse'') f) = ''sparse''
        \<longrightarrow> int_literal (strip (after_tag ''sparse'' f)))"

definition network_field_ok :: "string \<Rightarrow> bool" where
  "network_field_ok f =
     ((has_tag TEMPLATE_PARSER_SLAVE_ID f
         \<longrightarrow> int_literal (strip (after_tag TEMPLATE_PARSER_SLAVE_ID f)))
      \<and> (has_tag TEMPLATE_PARSER_NOT_ZERO_MODE f
         \<longrightarrow> int_literal (strip (after_tag TEMPLATE_PARSER_NOT_ZERO_MODE f))))"

definition register_field_ok :: "string \<Rightarrow> bool" where
  "register_field_ok f =
     ((has_tag TEMPLATE_PARSER_REG_UID f
         \<longrightarrow> int_literal (strip (after_tag TEMPLATE_PARSER_REG_UID f)))
      \<and> (has_tag TEMPLATE_PARSER_REG_ADDRESS f
         \<longrightarrow> int_literal (strip (after_tag TEMPLATE_PARSER_REG_ADDRESS f))))"

definition line_ok :: "string \<Rightarrow> bool" where
  "line_ok line =
     (if has_tag TEMPLATE_PARSER_DESC line then
        list_all device_field_ok (py_split TEMPLATE_PARSER_SEPARATOR line)
      else if has_tag TEMPLATE_PARSER_NETWORK line then
        list_all network_field_ok (py_split TEMPLATE_PARSER_SEPARATOR line)
      else if has_tag TEMPLATE_PARSER_REGISTER_DEF line then
        list_all register_field_ok (py_split TEMPLATE_PARSER_SEPARATOR line)
      else True)"

definition numeric_fields_ok :: "string \<Rightarrow> bool" where
  "numeric_fields_ok config_file = list_all line_ok (splitlines config_file)"

text \<open>
  A register definition line is a line that the parser treats as one: it starts with
  the marker of register definitions and with neither of the two markers tested
  before. The parameter ids of a list of descriptors.
\<close>

definition register_line :: "string \<Rightarrow> bool" where
  "register_line line =
     (\<not> has_tag TEMPLATE_PARSER_DESC line \<and> \<not> has_tag TEMPLATE_PARSER_NETWORK line
      \<and> has_tag TEMPLATE_PARSER_REGISTER_DEF line)"

definition param_ids :: "RegisterBlockConfig list \<Rightarrow> int option list" where
  "param_ids registers = map param_id registers"




text \<open>
  What a field of a register definition line assigns: an address field assigns its
  value, shifted by one outside zero mode, when that is in the range 0 to 99999, and a
  register type field with one of the four tokens assigns the register type of the
  token. The fields for a parameter id in a line are those that follow a parameter id
  field with that value and come before the next parameter id field. The last
  assignment of a list of assignments, or the value from before when nothing is
  assigned.
\<close>

definition field_address :: "bool \<Rightarrow> string \<Rightarrow> int option" where
  "field_address zero c =
     (if \<not> has_tag TEMPLATE_PARSER_REG_UID c \<and> has_tag TEMPLATE_PARSER_REG_ADDRESS c then
        (case py_int (strip (after_tag TEMPLATE_PARSER_REG_ADDRESS c)) of
           Inl e \<Rightarrow> None
         | Inr a \<Rightarrow>
             if 0 \<le> (if zero then a else a + 1) \<and> (if zero then a else a + 1) \<le> 99999
             then Some (if zero then a else a + 1) else None)
      else None)"

definition field_register_type :: "string \<Rightarrow> string option" where
  "field_register_type c =
     (if \<not> has_tag TEMPLATE_PARSER_REG_UID c \<and> \<not> has_tag TEMPLATE_PARSER_REG_ADDRESS c
         \<and> has_tag TEMPLATE_PARSER_REG_TYPE c then
        (if strip (after_tag TEMPLATE_PARSER_REG_TYPE c) = TEMPLATE_PARSER_TYPE_INPUT_REGISTER
         then Some TYPE_INPUT_REGISTER
         else if strip (after_tag TEMPLATE_PARSER_REG_TYPE c) = TEMPLATE_PARSER_TYPE_HOLDING_REGISTER
         then Some TYPE_HOLDING_REGISTER
         else if strip (after_tag TEMPLATE_PARSER_REG_TYPE c) = TEMPLATE_PARSER_TYPE_DISCRETE_INPUT
         then Some TYPE_DISCRETE_INPUT
         else if strip (after_tag TEMPLATE_PARSER_REG_TYPE c) = TEMPLATE_PARSER_TYPE_COIL
         then Some TYPE_COIL
         else None)
      else None)"

fun fields_for :: "int \<Rightarrow> int option \<Rightarrow> string list \<Rightarrow> string list" where
  "fields_for p cur [] = []"
| "fields_for p cur (c # cs) =
     (if has_tag TEMPLATE_PARSER_REG_UID c then
        (case py_int (strip (after_tag TEMPLATE_PARSER_REG_UID c)) of
           Inl e \<Rightarrow> []
         | Inr q \<Rightarrow> fields_for p (Some q) cs)
      else if cur = Some p then c # fields_for p cur cs
      else fields_for p cur cs)"

definition last_assigned :: "'a option list \<Rightarrow> 'a option \<Rightarrow> 'a option" where
  "last_assigned xs before =
     (case filter (\<lambda>x. x \<noteq> None) xs of [] \<Rightarrow> before | y # ys \<Rightarrow> last (y # ys))"

text \<open>
  The address and the register type of every descriptor with a given parameter id,
  and those of the first of them. A register definition line names a parameter id when
  one of its parameter id fields has that value, and opens with it when its first
  field has.
\<close>

definition assigned_to :: "int \<Rightarrow> RegisterBlockConfig list \<Rightarrow> (int option \<times> string option) list" where
  "assigned_to p registers =
     map (\<lambda>reg. (reg_address reg, reg_register_type reg))
       (filter (\<lambda>reg. param_id reg = Some p) registers)"

definition address_of :: "int \<Rightarrow> RegisterBlockConfig list \<Rightarrow> int option" where
  "address_of p registers = (case assigned_to p registers of [] \<Rightarrow> None | x # xs \<Rightarrow> fst x)"

definition register_type_of :: "int \<Rightarrow> RegisterBlockConfig list \<Rightarrow> string option" where
  "register_type_of p registers =
     (case assigned_to p registers of [] \<Rightarrow> None | x # xs \<Rightarrow> snd x)"

definition names_param :: "int \<Rightarrow> string \<Rightarrow> bool" where
  "names_param p line =
     (register_line line
      \<and> list_ex (\<lambda>c. has_tag TEMPLATE_PARSER_REG_UID c
                     \<and> py_int (strip (after_tag TEMPLATE_PARSER_REG_UID c)) = Inr p)
          (py_split TEMPLATE_PARSER_SEPARATOR line))"

definition opens_with :: "int \<Rightarrow> string \<Rightarrow> bool" where
  "opens_with p line =
     (register_line line
      \<and> py_int (strip (after_tag TEMPLATE_PARSER_REG_UID
                        (hd (py_split TEMPLATE_PARSER_SEPARATOR line)))) = Inr p)"

section \<open>Auxiliary facts\<close>

lemma foldE_append:
  "foldE f (xs @ ys) s = (case foldE f xs s of Inl e \<Rightarrow> Inl e | Inr s' \<Rightarrow> foldE f ys s')"
  by (induction xs arbitrary: s) (auto split: sum.splits)

lemma foldE_invariant:
  assumes "foldE f xs s = Inr s'" and "P s"
    and "\<And>x t t'. x \<in> set xs \<Longrightarrow> P t \<Longrightarrow> f x t = Inr t' \<Longrightarrow> P t'"
  shows "P s'"
  using assms
proof (induction xs arbitrary: s)
  case Nil
  then show ?case by simp
next
  case (Cons x xs)
  from Cons.prems(1) obtain t where t: "f x s = Inr t" "foldE f xs t = Inr s'"
    by (auto split: sum.splits)
  have Pt: "P t" using Cons.prems(2) t(1) Cons.prems(3) [of x s t] by simp
  show ?case
  proof (rule Cons.IH [OF t(2) Pt])
    fix y u u' assume "y \<in> set xs" "P u" "f y u = Inr u'"
    then show "P u'" using Cons.prems(3) [of y u u'] by simp
  qed
qed

lemma foldE_total:
  assumes "P s"
    and "\<And>x t. x \<in> set xs \<Longrightarrow> P t \<Longrightarrow> \<exists>t'. f x t = Inr t' \<and> P t'"
  shows "\<exists>s'. foldE f xs s = Inr s' \<and> P s'"
  using assms
proof (induction xs arbitrary: s)
  case Nil
  then show ?case by simp
next
  case (Cons x xs)
  from Cons.prems obtain t where t: "f x s = Inr t" "P t" by (meson list.set_intros(1))
  have "\<exists>s'. foldE f xs t = Inr s' \<and> P s'"
    by (rule Cons.IH [OF t(2)]) (simp add: Cons.prems(2))
  with t show ?case by simp
qed

lemma set_py_range: "set (py_range lo hi) = {lo..<hi}"
  by (auto simp: py_range_def)

lemma length_py_range: "length (py_range lo hi) = nat (hi - lo)"
  by (simp add: py_range_def)

lemma sorted_nth_0_Min:
  fixes xs :: "int list"
  shows "sorted xs \<Longrightarrow> xs \<noteq> [] \<Longrightarrow> xs ! 0 = Min (set xs)"
  by (cases xs) (auto intro!: Min_eqI [symmetric])

lemma sorted_nth_last_Max:
  fixes xs :: "int list"
  shows "sorted xs \<Longrightarrow> xs \<noteq> [] \<Longrightarrow> xs ! (length xs - 1) = Max (set xs)"
proof -
  assume a: "sorted xs" "xs \<noteq> []"
  have "\<forall>y\<in>set xs. y \<le> xs ! (length xs - 1)"
  proof
    fix y assume "y \<in> set xs"
    then obtain i where i: "i < length xs" "xs ! i = y" by (auto simp: in_set_conv_nth)
    then have "xs ! i \<le> xs ! (length xs - 1)"
      using a by (intro sorted_nth_mono) auto
    with i show "y \<le> xs ! (length xs - 1)" by simp
  qed
  moreover have "xs ! (length xs - 1) \<in> set xs" using a by simp
  ultimately show ?thesis by (auto intro!: Max_eqI [symmetric])
qed

lemma those_map_Some: "those (map Some xs) = Some xs"
  by (induction xs) auto

lemma map_const_py_range: "map (\<lambda>x. v) (py_range lo hi) = replicate (nat (hi - lo)) v"
  by (simp add: map_replicate_const length_py_range)

lemma py_index_replicate:
  "0 \<le> i \<Longrightarrow> i < int n \<Longrightarrow> py_index (replicate n v) i = Inr v"
  by (simp add: py_index_def list_position_def)

lemma py_index_past_end: "int (length xs) \<le> i \<Longrightarrow> py_index xs i = Inl IndexError"
  by (simp add: py_index_def list_position_def)

lemma setup_sequential_block_result:
  assumes ne: "addrs \<noteq> []" and rt: "register_type \<in> set REGISTER_TYPES"
    and lt: "Min (set addrs) < Max (set addrs)"
  shows "setup_sequential_block (map Some addrs) register_type =
    Inr (Some (Sequential
      \<lparr>sq_address = Min (set addrs),
       sq_values = replicate (nat (Max (set addrs) - Min (set addrs))) 0,
       sq_timestamps = replicate (nat (Max (set addrs) - Min (set addrs)) - 1) None,
       sq_register_type = register_type\<rparr>))"
proof -
  have sne: "sort addrs \<noteq> []" using ne by (metis length_sort length_0_conv)
  have lo: "sort addrs ! 0 = Min (set addrs)"
    using sorted_nth_0_Min [of "sort addrs"] sne by simp
  have hi: "sort addrs ! (length addrs - Suc 0) = Max (set addrs)"
    using sorted_nth_last_Max [of "sort addrs"] sne by simp
  have ts: "map (\<lambda>i. None) (py_range 0 (int n - 1)) = replicate (n - 1) None" for n
    by (simp add: map_const_py_range nat_diff_distrib')
  have first: "py_index (replicate (nat (Max (set addrs) - Min (set addrs))) (0::int)) 0 = Inr 0"
    using lt by (intro py_index_replicate) simp_all
  have "those (map Some addrs) = Some addrs" by (rule those_map_Some)
  then show ?thesis
    using ne rt
    by (simp add: setup_sequential_block_def CbModbusSequentialDataBlock_def Let_def
        lo hi map_const_py_range ts first)
qed

lemma setup_sequential_block_one_address:
  assumes ne: "addrs \<noteq> []" and rt: "register_type \<in> set REGISTER_TYPES"
    and eq: "Min (set addrs) = Max (set addrs)"
  shows "setup_sequential_block (map Some addrs) register_type = Inl IndexError"
proof -
  have sne: "sort addrs \<noteq> []" using ne by (metis length_sort length_0_conv)
  have lo: "sort addrs ! 0 = Min (set addrs)"
    using sorted_nth_0_Min [of "sort addrs"] sne by simp
  have hi: "sort addrs ! (length addrs - Suc 0) = Max (set addrs)"
    using sorted_nth_last_Max [of "sort addrs"] sne by simp
  have "those (map Some addrs) = Some addrs" by (rule those_map_Some)
  then show ?thesis
    using ne rt eq
    by (simp add: setup_sequential_block_def CbModbusSequentialDataBlock_def Let_def
        lo hi map_const_py_range py_index_past_end)
qed

lemma keys_py_dict_set: "fst ` set (py_dict_set d k v) = insert k (fst ` set d)"
  by (simp add: py_dict_set_def dom_update)

lemma py_dict_get_present:
  assumes "k \<in> fst ` set d"
  shows "\<exists>v. py_dict_get d k = Inr v"
proof (cases "map_of d k")
  case None
  then have "k \<notin> fst ` set d" by (simp add: map_of_eq_None_iff)
  with assms show ?thesis by simp
next
  case (Some v)
  then show ?thesis by (simp add: py_dict_get_def)
qed

lemma py_dict_get_missing:
  assumes "k \<notin> fst ` set d"
  shows "py_dict_get d k = Inl KeyError"
proof -
  from assms have "map_of d k = None" by (simp add: map_of_eq_None_iff)
  then show ?thesis by (simp add: py_dict_get_def)
qed

lemma read_sparse_rows:
  "\<exists>vals' tss'. foldE read_sparse_step (map Row rs) (vals, tss) = Inr (vals', tss')
     \<and> fst ` set vals' = fst ` set vals \<union> register_address ` set rs
     \<and> fst ` set tss' = fst ` set tss \<union> register_address ` set rs"
proof (induction rs arbitrary: vals tss)
  case Nil
  then show ?case by simp
next
  case (Cons r rs)
  have step: "read_sparse_step (Row r) (vals, tss)
    = Inr (py_dict_set vals (register_address r) (register_data r),
           py_dict_set tss (register_address r) (row_timestamp r))"
    by (simp add: read_sparse_step_def)
  from Cons.IH [of "py_dict_set vals (register_address r) (register_data r)"
                   "py_dict_set tss (register_address r) (row_timestamp r)"]
  show ?case by (auto simp: step keys_py_dict_set)
qed

lemma read_collection_data_sparse:
  assumes "sparse context"
  shows "\<exists>vals tss lg. read_collection_data context register_type address count fl items
            = Inr ((PyDict vals, PyDict tss), lg)
          \<and> fst ` set vals = register_address ` set items
          \<and> fst ` set tss = register_address ` set items"
proof -
  from read_sparse_rows [of "sort_key register_address items" "[]" "[]"]
  obtain vals' tss' where
    r: "foldE read_sparse_step (map Row (sort_key register_address items)) ([], []) = Inr (vals', tss')"
    and k: "fst ` set vals' = register_address ` set items"
           "fst ` set tss' = register_address ` set items"
    by auto
  show ?thesis using assms r k by (simp add: read_collection_data_def Let_def)
qed

lemma sparse_merge_step_total:
  assumes "key \<in> fst ` set vals" "key \<in> fst ` set tss" "addr \<in> fst ` set sv"
  shows "\<exists>sv' st'. sparse_merge_step (PyDict vals) (PyDict tss) key addr (sv, st) = Inr (sv', st')
           \<and> fst ` set sv' = fst ` set sv"
proof -
  from py_dict_get_present [OF assms(1)] obtain v where v: "py_dict_get vals key = Inr v" ..
  from py_dict_get_present [OF assms(2)] obtain t where t: "py_dict_get tss key = Inr t" ..
  show ?thesis using v t assms(3)
    by (auto simp: sparse_merge_step_def keys_py_dict_set)
qed

lemma sparse_merge_key_total:
  assumes "key \<in> fst ` set vals" "key \<in> fst ` set tss"
  shows "\<exists>sv' st'. sparse_merge_key (PyDict vals) (PyDict tss) key (sv, st) = Inr (sv', st')
           \<and> fst ` set sv' = fst ` set sv"
proof -
  have "\<exists>s'. foldE (sparse_merge_step (PyDict vals) (PyDict tss) key) (map fst sv) (sv, st) = Inr s'
          \<and> (\<lambda>p. fst ` set (fst p) = fst ` set sv) s'"
  proof (rule foldE_total)
    show "fst ` set (fst (sv, st)) = fst ` set sv" by simp
  next
    fix x and t :: "(int option \<times> int) list \<times> (int option \<times> timestamp) list"
    assume x: "x \<in> set (map fst sv)" and t: "fst ` set (fst t) = fst ` set sv"
    obtain a b where ab: "t = (a, b)" by (cases t)
    from x t ab have "x \<in> fst ` set a" by simp
    from sparse_merge_step_total [OF assms this, of b] t ab
    show "\<exists>t'. sparse_merge_step (PyDict vals) (PyDict tss) key x t = Inr t'
            \<and> fst ` set (fst t') = fst ` set sv" by auto
  qed
  then show ?thesis by (auto simp: sparse_merge_key_def)
qed

lemma sparse_merge_total:
  assumes "set ks \<subseteq> fst ` set vals" "set ks \<subseteq> fst ` set tss"
  shows "\<exists>sv' st'. foldE (sparse_merge_key (PyDict vals) (PyDict tss)) ks (sv, st) = Inr (sv', st')
           \<and> fst ` set sv' = fst ` set sv"
proof -
  have "\<exists>s'. foldE (sparse_merge_key (PyDict vals) (PyDict tss)) ks (sv, st) = Inr s'
          \<and> (\<lambda>p. fst ` set (fst p) = fst ` set sv) s'"
  proof (rule foldE_total)
    show "fst ` set (fst (sv, st)) = fst ` set sv" by simp
  next
    fix x and t :: "(int option \<times> int) list \<times> (int option \<times> timestamp) list"
    assume x: "x \<in> set ks" and t: "fst ` set (fst t) = fst ` set sv"
    obtain a b where ab: "t = (a, b)" by (cases t)
    from x assms have "x \<in> fst ` set vals" "x \<in> fst ` set tss" by auto
    from sparse_merge_key_total [OF this, of a b] t ab
    show "\<exists>t'. sparse_merge_key (PyDict vals) (PyDict tss) x t = Inr t'
            \<and> fst ` set (fst t') = fst ` set sv" by auto
  qed
  then show ?thesis by auto
qed

lemma mapE_dict_missing:
  assumes "\<exists>a\<in>set xs. Some a \<notin> fst ` set d"
  shows "mapE (\<lambda>i. py_dict_get d (Some i)) xs = Inl KeyError"
  using assms
proof (induction xs)
  case Nil
  then show ?case by simp
next
  case (Cons x xs)
  show ?case
  proof (cases "Some x \<in> fst ` set d")
    case True
    from py_dict_get_present [OF this] obtain v where v: "py_dict_get d (Some x) = Inr v" ..
    from True Cons.prems have "\<exists>a\<in>set xs. Some a \<notin> fst ` set d" by auto
    from Cons.IH [OF this] v show ?thesis by simp
  next
    case False
    then show ?thesis by (simp add: py_dict_get_missing)
  qed
qed

lemma mapE_dict_present:
  assumes "\<forall>a\<in>set xs. Some a \<in> fst ` set d"
  shows "\<exists>ys. mapE (\<lambda>i. py_dict_get d (Some i)) xs = Inr ys \<and> length ys = length xs"
  using assms
proof (induction xs)
  case Nil
  then show ?case by simp
next
  case (Cons x xs)
  from Cons.prems have "Some x \<in> fst ` set d" by simp
  from py_dict_get_present [OF this] obtain v where v: "py_dict_get d (Some x) = Inr v" ..
  from Cons.IH Cons.prems obtain ys where
    "mapE (\<lambda>i. py_dict_get d (Some i)) xs = Inr ys" "length ys = length xs" by auto
  with v show ?case by simp
qed

lemma sparse_getValues_cases:
  assumes sp: "sparse context"
  shows "((\<exists>a\<in>set (py_range address (address + count)). Some a \<notin> fst ` set (sp_values self))
            \<longrightarrow> sparse_getValues context self items address count = Inl KeyError)
       \<and> ((\<forall>a\<in>set (py_range address (address + count)). Some a \<in> fst ` set (sp_values self))
            \<longrightarrow> (\<exists>result self' lg. sparse_getValues context self items address count
                     = Inr (result, self', lg) \<and> length result = nat count))"
proof -
  from read_collection_data_sparse [OF sp, of "sp_register_type self" address count "Fill_Int 0" items]
  obtain vals tss lg where
    rd: "read_collection_data context (sp_register_type self) address count (Fill_Int 0) items
           = Inr ((PyDict vals, PyDict tss), lg)"
    and kv: "fst ` set vals = register_address ` set items"
    and kt: "fst ` set tss = register_address ` set items"
    by (elim exE conjE) (rule that)
  have "set (map fst vals) \<subseteq> fst ` set vals" "set (map fst vals) \<subseteq> fst ` set tss"
    using kv kt by auto
  from sparse_merge_total [OF this, of "sp_values self" "sp_timestamps self"]
  obtain sv' st' where
    mg: "foldE (sparse_merge_key (PyDict vals) (PyDict tss)) (map fst vals)
           (sp_values self, sp_timestamps self) = Inr (sv', st')"
    and ks: "fst ` set sv' = fst ` set (sp_values self)"
    by (elim exE conjE) (rule that)
  have miss: "sparse_getValues context self items address count = Inl KeyError"
    if "\<exists>a\<in>set (py_range address (address + count)). Some a \<notin> fst ` set (sp_values self)"
  proof -
    from that ks have "\<exists>a\<in>set (py_range address (address + count)). Some a \<notin> fst ` set sv'"
      by simp
    from mapE_dict_missing [OF this] show ?thesis
      by (simp add: sparse_getValues_def rd mg Let_def)
  qed
  have pres: "\<exists>result self' lg. sparse_getValues context self items address count
                     = Inr (result, self', lg) \<and> length result = nat count"
    if "\<forall>a\<in>set (py_range address (address + count)). Some a \<in> fst ` set (sp_values self)"
  proof -
    from that ks have "\<forall>a\<in>set (py_range address (address + count)). Some a \<in> fst ` set sv'"
      by simp
    from mapE_dict_present [OF this] obtain ys where
      "mapE (\<lambda>i. py_dict_get sv' (Some i)) (py_range address (address + count)) = Inr ys"
      "length ys = length (py_range address (address + count))"
      by (elim exE conjE) (rule that)
    then have "mapE (\<lambda>i. py_dict_get sv' (Some i)) (py_range address (address + count)) = Inr ys"
      "length ys = nat count" by (simp_all add: length_py_range)
    then show ?thesis
      by (simp add: sparse_getValues_def rd mg Let_def)
  qed
  show ?thesis
  proof (intro conjI impI)
    assume "\<exists>a\<in>set (py_range address (address + count)). Some a \<notin> fst ` set (sp_values self)"
    then show "sparse_getValues context self items address count = Inl KeyError" by (rule miss)
  next
    assume "\<forall>a\<in>set (py_range address (address + count)). Some a \<in> fst ` set (sp_values self)"
    then show "\<exists>result self' lg. sparse_getValues context self items address count
                     = Inr (result, self', lg) \<and> length result = nat count" by (rule pres)
  qed
qed

lemma first_seen_snoc:
  "first_seen (ids @ [x]) = (if x \<in> set ids then first_seen ids else first_seen ids @ [x])"
  by (simp add: first_seen_def)

lemma set_first_seen: "set (first_seen ids) = set ids"
  by (simp add: first_seen_def)

lemma distinct_first_seen: "distinct (first_seen ids)"
  by (simp add: first_seen_def)

lemma update_new_key: "k \<notin> fst ` set al \<Longrightarrow> AList.update k v al = al @ [(k, v)]"
  by (induction al) auto

lemma succeeds_iff: "succeeds r \<longleftrightarrow> (\<exists>x. r = Inr x)"
  by (cases r) auto

lemma strip_strip: "strip (strip s) = strip s"
proof -
  define t where "t = dropWhile is_space s"
  define u where "u = rev (dropWhile is_space (rev t))"
  have su: "strip s = u" by (simp add: strip_def t_def u_def)
  have ru: "dropWhile is_space (rev u) = rev u"
    by (simp add: u_def)
  have "t = rev (takeWhile is_space (rev t) @ dropWhile is_space (rev t))"
    by (simp only: takeWhile_dropWhile_id rev_rev_ident)
  also have "\<dots> = u @ rev (takeWhile is_space (rev t))"
    by (simp only: rev_append u_def)
  finally have tu: "t = u @ rev (takeWhile is_space (rev t))" .
  have du: "dropWhile is_space u = u"
  proof (cases u)
    case Nil
    then show ?thesis by simp
  next
    case (Cons a v)
    from tu obtain w where "t = u @ w" ..
    with Cons have "t = a # (v @ w)" by simp
    then have "hd t = a" "t \<noteq> []" by simp_all
    moreover have "\<not> is_space (hd t)" using \<open>t \<noteq> []\<close> unfolding t_def by (rule hd_dropWhile)
    ultimately show ?thesis using Cons by simp
  qed
  show ?thesis unfolding su by (simp add: strip_def du ru)
qed

lemma py_int_strip: "py_int (strip s) = py_int s"
  by (simp add: py_int_def strip_strip)

lemma device_field_total:
  assumes "device_field_ok f"
  shows "\<exists>st'. device_field f st = Inr st'"
proof (cases "map py_lower (take (length ''sparse'') f) = ''sparse''")
  case True
  with assms obtain n where "py_int (strip (after_tag ''sparse'' f)) = Inr n"
    by (auto simp: device_field_ok_def int_literal_def succeeds_iff)
  then show ?thesis by (simp add: device_field_def Let_def)
next
  case False
  then show ?thesis by (simp add: device_field_def Let_def)
qed

lemma network_field_total:
  assumes "network_field_ok f"
  shows "\<exists>st'. network_field f st = Inr st'"
proof (cases "has_tag TEMPLATE_PARSER_SLAVE_ID f")
  case True
  with assms obtain n where n: "py_int (strip (after_tag TEMPLATE_PARSER_SLAVE_ID f)) = Inr n"
    by (auto simp: network_field_ok_def int_literal_def succeeds_iff)
  then have "py_int (after_tag TEMPLATE_PARSER_SLAVE_ID f) = Inr n"
    by (simp add: py_int_strip)
  with n True show ?thesis by (simp add: network_field_def Let_def)
next
  case False
  show ?thesis
  proof (cases "has_tag TEMPLATE_PARSER_NOT_ZERO_MODE f")
    case True
    with assms obtain n where "py_int (strip (after_tag TEMPLATE_PARSER_NOT_ZERO_MODE f)) = Inr n"
      by (auto simp: network_field_ok_def int_literal_def succeeds_iff)
    with False True show ?thesis by (simp add: network_field_def Let_def)
  next
    case nz: False
    with False show ?thesis by (simp add: network_field_def Let_def)
  qed
qed

lemma register_field_total:
  assumes "register_field_ok f"
  shows "\<exists>lst'. register_field f lst = Inr lst'"
proof -
  obtain re tr st where lst: "lst = (re, tr, st)" by (cases lst)
  show ?thesis
  proof (cases "has_tag TEMPLATE_PARSER_REG_UID f")
    case True
    with assms obtain n where "py_int (strip (after_tag TEMPLATE_PARSER_REG_UID f)) = Inr n"
      by (auto simp: register_field_ok_def int_literal_def succeeds_iff)
    with True show ?thesis by (auto simp: register_field_def lst Let_def)
  next
    case False
    show ?thesis
    proof (cases "has_tag TEMPLATE_PARSER_REG_ADDRESS f")
      case True
      with assms obtain n where "py_int (strip (after_tag TEMPLATE_PARSER_REG_ADDRESS f)) = Inr n"
        by (auto simp: register_field_ok_def int_literal_def succeeds_iff)
      with False True show ?thesis by (auto simp: register_field_def lst Let_def)
    next
      case na: False
      with False show ?thesis by (auto simp: register_field_def lst Let_def)
    qed
  qed
qed

lemma foldE_all_total:
  assumes "\<And>x t. x \<in> set xs \<Longrightarrow> \<exists>t'. f x t = Inr t'"
  shows "\<exists>s'. foldE f xs s = Inr s'"
proof -
  have "\<exists>s'. foldE f xs s = Inr s' \<and> (\<lambda>_. True) s'"
    by (rule foldE_total) (use assms in auto)
  then show ?thesis by simp
qed

lemma parse_line_total:
  assumes "line_ok line"
  shows "\<exists>st'. parse_line line st = Inr st'"
proof -
  consider (d) "has_tag TEMPLATE_PARSER_DESC line"
    | (n) "\<not> has_tag TEMPLATE_PARSER_DESC line" "has_tag TEMPLATE_PARSER_NETWORK line"
    | (r) "\<not> has_tag TEMPLATE_PARSER_DESC line" "\<not> has_tag TEMPLATE_PARSER_NETWORK line"
          "has_tag TEMPLATE_PARSER_REGISTER_DEF line"
    | (o) "\<not> has_tag TEMPLATE_PARSER_DESC line" "\<not> has_tag TEMPLATE_PARSER_NETWORK line"
          "\<not> has_tag TEMPLATE_PARSER_REGISTER_DEF line"
    by blast
  then show ?thesis
  proof cases
    case d
    with assms have "list_all device_field_ok (py_split TEMPLATE_PARSER_SEPARATOR line)"
      by (simp add: line_ok_def)
    then have "\<exists>s'. foldE device_field (py_split TEMPLATE_PARSER_SEPARATOR line) st = Inr s'"
      by (intro foldE_all_total device_field_total) (simp add: list_all_iff)
    with d show ?thesis by (simp add: parse_line_def)
  next
    case n
    with assms have "list_all network_field_ok (py_split TEMPLATE_PARSER_SEPARATOR line)"
      by (simp add: line_ok_def)
    then have "\<exists>s'. foldE network_field (py_split TEMPLATE_PARSER_SEPARATOR line) st = Inr s'"
      by (intro foldE_all_total network_field_total) (simp add: list_all_iff)
    with n show ?thesis by (simp add: parse_line_def)
  next
    case r
    with assms have "list_all register_field_ok (py_split TEMPLATE_PARSER_SEPARATOR line)"
      by (simp add: line_ok_def)
    then have "\<exists>s'. foldE register_field (py_split TEMPLATE_PARSER_SEPARATOR line)
                      (False, None, st) = Inr s'"
      by (intro foldE_all_total register_field_total) (simp add: list_all_iff)
    then obtain re tr st' where
      "foldE register_field (py_split TEMPLATE_PARSER_SEPARATOR line) (False, None, st)
         = Inr (re, tr, st')"
      by (metis prod_cases3)
    with r show ?thesis by (simp add: parse_line_def)
  next
    case o
    then show ?thesis by (simp add: parse_line_def)
  qed
qed

lemma parse_lines_total:
  assumes "numeric_fields_ok config_file"
  shows "\<exists>st. parse_lines config_file self = Inr st"
  unfolding parse_lines_def
  by (intro foldE_all_total parse_line_total)
     (use assms in \<open>simp add: numeric_fields_ok_def list_all_iff\<close>)


lemma has_tag_append: "has_tag tag s \<Longrightarrow> \<exists>r. s = tag @ r"
  unfolding has_tag_def by (metis append_take_drop_id)


lemma address_tag_only:
  assumes "has_tag TEMPLATE_PARSER_REG_ADDRESS c"
  shows "\<not> has_tag TEMPLATE_PARSER_REG_UID c"
proof -
  from has_tag_append [OF assms] obtain r where "c = TEMPLATE_PARSER_REG_ADDRESS @ r" ..
  then show ?thesis
    by (simp add: has_tag_def TEMPLATE_PARSER_REG_UID_def TEMPLATE_PARSER_REG_ADDRESS_def)
qed




lemma param_ids_set_address: "param_ids (set_address tr a regs) = param_ids regs"
  by (induction regs) (auto simp: set_address_def param_ids_def)

lemma param_ids_set_register_type: "param_ids (set_register_type tr rt regs) = param_ids regs"
  by (induction regs) (auto simp: set_register_type_def param_ids_def)

lemma param_ids_append: "param_ids (xs @ ys) = param_ids xs @ param_ids ys"
  by (simp add: param_ids_def)

lemma param_ids_new: "param_ids [new_RegisterBlockConfig pid addr] = [pid]"
  by (simp add: param_ids_def new_RegisterBlockConfig_def)

lemma list_ex_param_id:
  "list_ex (\<lambda>reg. Some pid = param_id reg) regs \<longleftrightarrow> Some pid \<in> set (param_ids regs)"
  by (auto simp: list_ex_iff param_ids_def)

lemma register_field_known:
  assumes "register_field c (True, tr, st) = Inr (re', tr', st')"
  shows "re' = True \<and> param_ids (ps_registers st') = param_ids (ps_registers st)"
  using assms
  by (auto simp: register_field_def Let_def param_ids_set_address param_ids_set_register_type
      split: if_splits sum.splits)

lemma register_field_first:
  assumes "has_tag TEMPLATE_PARSER_REG_UID c"
    and "register_field c (False, None, st) = Inr (re', tr', st')"
  shows "\<exists>p. py_int (strip (after_tag TEMPLATE_PARSER_REG_UID c)) = Inr p \<and> re' = True
           \<and> param_ids (ps_registers st') =
               (if Some p \<in> set (param_ids (ps_registers st)) then param_ids (ps_registers st)
                else param_ids (ps_registers st) @ [Some p])"
  using assms
  by (auto simp: register_field_def Let_def list_ex_param_id param_ids_append param_ids_new
      split: if_splits sum.splits)

lemma register_fields_known:
  assumes "foldE register_field cs (True, tr, st) = Inr (re', tr', st')"
  shows "param_ids (ps_registers st') = param_ids (ps_registers st)"
  using assms
proof (induction cs arbitrary: tr st)
  case Nil
  then show ?case by simp
next
  case (Cons c cs)
  from Cons.prems obtain re1 tr1 st1 where
    s: "register_field c (True, tr, st) = Inr (re1, tr1, st1)"
    and r: "foldE register_field cs (re1, tr1, st1) = Inr (re', tr', st')"
    by (auto split: sum.splits)
  from register_field_known [OF s] have "re1 = True"
    "param_ids (ps_registers st1) = param_ids (ps_registers st)" by simp_all
  with Cons.IH [of tr1 st1] r show ?case by simp
qed

lemma hd_split_from: "hd (split_from sep cur s) = cur @ takeWhile (\<lambda>c. c \<noteq> sep) s"
  by (induction s arbitrary: cur) auto

lemma split_from_not_Nil: "split_from sep cur s \<noteq> []"
  by (induction s arbitrary: cur) auto

lemma take_takeWhile_all:
  "\<forall>x\<in>set (take n xs). P x \<Longrightarrow> take n (takeWhile P xs) = take n xs"
proof (induction xs arbitrary: n)
  case Nil
  then show ?case by simp
next
  case (Cons x xs)
  then show ?case by (cases n) auto
qed

lemma has_tag_first_field:
  assumes "has_tag tag line" and "sep \<notin> set tag"
  shows "has_tag tag (hd (py_split sep line))"
proof -
  from assms(1) have t: "take (length tag) line = tag" by (simp add: has_tag_def)
  with assms(2) have "\<forall>x\<in>set (take (length tag) line). x \<noteq> sep" by auto
  from take_takeWhile_all [of "length tag" line "\<lambda>c. c \<noteq> sep", OF this] t
  show ?thesis by (simp add: has_tag_def py_split_def hd_split_from)
qed

lemma device_field_registers:
  "device_field f st = Inr st' \<Longrightarrow> ps_registers st' = ps_registers st"
  by (auto simp: device_field_def Let_def split: if_splits sum.splits)

lemma network_field_registers:
  "network_field f st = Inr st' \<Longrightarrow> ps_registers st' = ps_registers st"
  by (auto simp: network_field_def Let_def split: if_splits sum.splits)

lemma parse_line_other:
  assumes "parse_line line st = Inr st'" and "\<not> register_line line"
  shows "ps_registers st' = ps_registers st"
proof -
  consider (d) "has_tag TEMPLATE_PARSER_DESC line"
    | (n) "\<not> has_tag TEMPLATE_PARSER_DESC line" "has_tag TEMPLATE_PARSER_NETWORK line"
    | (o) "\<not> has_tag TEMPLATE_PARSER_DESC line" "\<not> has_tag TEMPLATE_PARSER_NETWORK line"
          "\<not> has_tag TEMPLATE_PARSER_REGISTER_DEF line"
    using assms(2) by (auto simp: register_line_def)
  then show ?thesis
  proof cases
    case d
    with assms(1) have
      "foldE device_field (py_split TEMPLATE_PARSER_SEPARATOR line) st = Inr st'"
      by (simp add: parse_line_def)
    then show ?thesis
      by (rule foldE_invariant [where P = "\<lambda>s. ps_registers s = ps_registers st"])
         (simp_all add: device_field_registers)
  next
    case n
    with assms(1) have
      "foldE network_field (py_split TEMPLATE_PARSER_SEPARATOR line) st = Inr st'"
      by (simp add: parse_line_def)
    then show ?thesis
      by (rule foldE_invariant [where P = "\<lambda>s. ps_registers s = ps_registers st"])
         (simp_all add: network_field_registers)
  next
    case o
    with assms(1) show ?thesis by (simp add: parse_line_def)
  qed
qed

lemma parse_line_register:
  assumes "parse_line line st = Inr st'" and "register_line line"
  shows "\<exists>p. py_int (strip (after_tag TEMPLATE_PARSER_REG_UID
                  (hd (py_split TEMPLATE_PARSER_SEPARATOR line)))) = Inr p
           \<and> param_ids (ps_registers st') =
               (if Some p \<in> set (param_ids (ps_registers st)) then param_ids (ps_registers st)
                else param_ids (ps_registers st) @ [Some p])"
proof -
  from assms(2) have tags: "\<not> has_tag TEMPLATE_PARSER_DESC line"
    "\<not> has_tag TEMPLATE_PARSER_NETWORK line" "has_tag TEMPLATE_PARSER_REGISTER_DEF line"
    by (simp_all add: register_line_def)
  obtain c cs where sp: "py_split TEMPLATE_PARSER_SEPARATOR line = c # cs"
    using split_from_not_Nil [of TEMPLATE_PARSER_SEPARATOR "[]" line]
    by (cases "py_split TEMPLATE_PARSER_SEPARATOR line") (auto simp: py_split_def)
  have "has_tag TEMPLATE_PARSER_REGISTER_DEF (hd (py_split TEMPLATE_PARSER_SEPARATOR line))"
    by (rule has_tag_first_field [OF tags(3)])
       (simp add: TEMPLATE_PARSER_SEPARATOR_def TEMPLATE_PARSER_REGISTER_DEF_def)
  then have ct: "has_tag TEMPLATE_PARSER_REG_UID c"
    by (simp add: sp TEMPLATE_PARSER_REGISTER_DEF_def TEMPLATE_PARSER_REG_UID_def)
  from assms(1) tags obtain re tr where
    f: "foldE register_field (c # cs) (False, None, st) = Inr (re, tr, st')"
    by (auto simp: parse_line_def sp split: sum.splits)
  then obtain re1 tr1 st1 where
    s: "register_field c (False, None, st) = Inr (re1, tr1, st1)"
    and r: "foldE register_field cs (re1, tr1, st1) = Inr (re, tr, st')"
    by (auto split: sum.splits)
  from register_field_first [OF ct s] obtain p where
    p: "py_int (strip (after_tag TEMPLATE_PARSER_REG_UID c)) = Inr p" "re1 = True"
    "param_ids (ps_registers st1) =
               (if Some p \<in> set (param_ids (ps_registers st)) then param_ids (ps_registers st)
                else param_ids (ps_registers st) @ [Some p])"
    by (elim exE conjE) (rule that)
  from r p(2) have "param_ids (ps_registers st') = param_ids (ps_registers st1)"
    by (simp add: register_fields_known)
  with p show ?thesis by (simp add: sp)
qed

lemma parse_line_distinct:
  assumes "parse_line line st = Inr st'" and "distinct (param_ids (ps_registers st))"
  shows "distinct (param_ids (ps_registers st'))"
proof (cases "register_line line")
  case True
  from parse_line_register [OF assms(1) True] assms(2) show ?thesis by auto
next
  case False
  from parse_line_other [OF assms(1) False] assms(2) show ?thesis by simp
qed

lemma parse_line_keeps:
  assumes "parse_line line st = Inr st'" and "q \<in> set (param_ids (ps_registers st))"
  shows "q \<in> set (param_ids (ps_registers st'))"
proof (cases "register_line line")
  case True
  from parse_line_register [OF assms(1) True] assms(2) show ?thesis by auto
next
  case False
  from parse_line_other [OF assms(1) False] assms(2) show ?thesis by simp
qed

lemma distinct_filter_one:
  "distinct (map f xs) \<Longrightarrow> y \<in> set (map f xs) \<Longrightarrow> length (filter (\<lambda>x. f x = y) xs) = 1"
proof (induction xs)
  case Nil
  then show ?case by simp
next
  case (Cons a xs)
  show ?case
  proof (cases "f a = y")
    case True
    with Cons.prems have "y \<notin> f ` set xs" by simp
    then have "\<forall>x\<in>set xs. f x \<noteq> y" by blast
    then have "filter (\<lambda>x. f x = y) xs = []" by (simp add: filter_empty_conv)
    with True show ?thesis by simp
  next
    case False
    with Cons show ?thesis by auto
  qed
qed

lemma parse_lines_distinct:
  assumes "parse_lines config_file self = Inr st"
  shows "distinct (param_ids (ps_registers st))"
  using assms unfolding parse_lines_def
  by (rule foldE_invariant [where P = "\<lambda>s. distinct (param_ids (ps_registers s))"])
     (simp_all add: param_ids_def [symmetric] parse_line_distinct, simp add: param_ids_def)

lemma parse_lines_defines:
  assumes "parse_lines config_file self = Inr st"
    and "line \<in> set (splitlines config_file)" and "register_line line"
    and "py_int (strip (after_tag TEMPLATE_PARSER_REG_UID
                  (hd (py_split TEMPLATE_PARSER_SEPARATOR line)))) = Inr p"
  shows "Some p \<in> set (param_ids (ps_registers st))"
proof -
  from assms(2) obtain ls1 ls2 where ls: "splitlines config_file = ls1 @ line # ls2"
    by (auto simp: in_set_conv_decomp)
  define s0 where "s0 = \<lparr>ps_self = self, ps_registers = [], ps_log = []\<rparr>"
  from assms(1) have "foldE parse_line (ls1 @ line # ls2) s0 = Inr st"
    by (simp add: parse_lines_def ls s0_def)
  then obtain s1 s2 where
    "foldE parse_line ls1 s0 = Inr s1" and l: "parse_line line s1 = Inr s2"
    and r: "foldE parse_line ls2 s2 = Inr st"
    by (auto simp: foldE_append split: sum.splits)
  from parse_line_register [OF l assms(3)] assms(4)
  have "Some p \<in> set (param_ids (ps_registers s2))" by auto
  with r show ?thesis
    by (rule foldE_invariant [where P = "\<lambda>s. Some p \<in> set (param_ids (ps_registers s))"])
       (simp add: parse_line_keeps)
qed

lemma not_succeeds_iff: "\<not> succeeds r \<longleftrightarrow> (\<exists>e. r = Inl e)"
  by (cases r) auto

lemma unit_id_converts:
  assumes "succeeds (int_of_pyval (cfg_slave_id row))"
  shows "int_of_pyval (cfg_slave_id row) = Inr (unit_id row)"
  using assms by (cases "int_of_pyval (cfg_slave_id row)") (simp_all add: unit_id_def)

lemma slave_context_succeeds:
  assumes "succeeds (ClearBladeModbusProxySlaveContext row)"
  obtains c lg where
    "ClearBladeModbusProxySlaveContext row = Inr (c, lg)"
    "context_of row = Some c"
proof -
  from assms obtain c lg where r: "ClearBladeModbusProxySlaveContext row = Inr (c, lg)"
    by (cases "ClearBladeModbusProxySlaveContext row") auto
  moreover have "context_of row = Some c" using r by (simp add: context_of_def)
  ultimately show ?thesis using that by blast
qed

lemma first_of_append_lt: "k < length rs \<Longrightarrow> first_of (rs @ [r]) k = first_of rs k"
  by (simp add: first_of_def nth_append)

lemma first_of_append_last: "first_of (rs @ [r]) (length rs) = (unit_id r \<notin> unit_id ` set rs)"
  by (simp add: first_of_def)

lemma rows_initializable_snoc:
  "rows_initializable (rs @ [r]) \<longleftrightarrow>
     rows_initializable rs \<and> succeeds (int_of_pyval (cfg_slave_id r))
     \<and> (unit_id r \<notin> unit_id ` set rs \<longrightarrow>
          succeeds (ClearBladeModbusProxySlaveContext r) \<and> 0 \<le> unit_id r \<and> unit_id r \<le> 247)"
proof -
  have "list_all
       (\<lambda>k. succeeds (int_of_pyval (cfg_slave_id ((rs @ [r]) ! k)))
            \<and> (first_of (rs @ [r]) k \<longrightarrow>
                 succeeds (ClearBladeModbusProxySlaveContext ((rs @ [r]) ! k))
                 \<and> 0 \<le> unit_id ((rs @ [r]) ! k) \<and> unit_id ((rs @ [r]) ! k) \<le> 247))
       [0..<length rs]
     = list_all
       (\<lambda>k. succeeds (int_of_pyval (cfg_slave_id (rs ! k)))
            \<and> (first_of rs k \<longrightarrow>
                 succeeds (ClearBladeModbusProxySlaveContext (rs ! k))
                 \<and> 0 \<le> unit_id (rs ! k) \<and> unit_id (rs ! k) \<le> 247))
       [0..<length rs]"
    by (simp add: list_all_iff nth_append first_of_append_lt)
  then show ?thesis
    by (simp add: rows_initializable_def first_of_append_last)
qed

lemma initialize_slaves_fold:
  assumes "rows_initializable rows"
  shows "\<exists>m lg. foldE initialize_slaves_step rows ([], [], [])
            = Inr (first_seen (map unit_id rows), m, lg)
         \<and> map fst m = first_seen (map unit_id rows)
         \<and> (\<forall>k<length rows. first_of rows k
               \<longrightarrow> map_of m (unit_id (rows ! k)) = context_of (rows ! k))
         \<and> (\<forall>j<length rows. \<not> first_of rows j
               \<longrightarrow> Duplicate_slave_id (unit_id (rows ! j)) \<in> set lg)"
  using assms
proof (induction rows rule: rev_induct)
  case Nil
  then show ?case by (simp add: first_seen_def)
next
  case (snoc r rs)
  from snoc.prems have ok: "rows_initializable rs"
    and okr: "succeeds (int_of_pyval (cfg_slave_id r))"
    and okf: "unit_id r \<notin> unit_id ` set rs \<longrightarrow>
          succeeds (ClearBladeModbusProxySlaveContext r) \<and> 0 \<le> unit_id r \<and> unit_id r \<le> 247"
    by (simp_all add: rows_initializable_snoc)
  from snoc.IH [OF ok] obtain m lg where
    f: "foldE initialize_slaves_step rs ([], [], []) = Inr (first_seen (map unit_id rs), m, lg)"
    and km: "map fst m = first_seen (map unit_id rs)"
    and first: "\<forall>k<length rs. first_of rs k
               \<longrightarrow> map_of m (unit_id (rs ! k)) = context_of (rs ! k)"
    and dup: "\<forall>j<length rs. \<not> first_of rs j
               \<longrightarrow> Duplicate_slave_id (unit_id (rs ! j)) \<in> set lg"
    by (elim exE conjE) (rule that)
  have sid: "int_of_pyval (cfg_slave_id r) = Inr (unit_id r)"
    using okr by (rule unit_id_converts)
  have seen: "set (first_seen (map unit_id rs)) = unit_id ` set rs"
    by (simp add: set_first_seen)
  have keys: "fst ` set m = unit_id ` set rs"
    using km seen by (metis list.set_map)
  show ?case
  proof (cases "unit_id r \<in> unit_id ` set rs")
    case True
    have "initialize_slaves_step r (first_seen (map unit_id rs), m, lg)
      = Inr (first_seen (map unit_id rs), m, lg @ [Duplicate_slave_id (unit_id r)])"
      using True by (simp add: initialize_slaves_step_def sid seen)
    then have step: "foldE initialize_slaves_step (rs @ [r]) ([], [], [])
      = Inr (first_seen (map unit_id (rs @ [r])), m, lg @ [Duplicate_slave_id (unit_id r)])"
      using True by (simp add: foldE_append f first_seen_snoc)
    have k': "map fst m = first_seen (map unit_id (rs @ [r]))"
      using True km by (simp add: first_seen_snoc)
    have first': "\<forall>k<length (rs @ [r]). first_of (rs @ [r]) k
               \<longrightarrow> map_of m (unit_id ((rs @ [r]) ! k)) = context_of ((rs @ [r]) ! k)"
    proof (intro allI impI)
      fix k assume k: "k < length (rs @ [r])" and fo: "first_of (rs @ [r]) k"
      show "map_of m (unit_id ((rs @ [r]) ! k)) = context_of ((rs @ [r]) ! k)"
      proof (cases "k < length rs")
        case True
        with fo first show ?thesis by (simp add: nth_append first_of_append_lt)
      next
        case False
        with k have "k = length rs" by simp
        with fo \<open>unit_id r \<in> unit_id ` set rs\<close> show ?thesis
          by (simp add: first_of_append_last)
      qed
    qed
    have dup': "\<forall>j<length (rs @ [r]). \<not> first_of (rs @ [r]) j
               \<longrightarrow> Duplicate_slave_id (unit_id ((rs @ [r]) ! j))
                     \<in> set (lg @ [Duplicate_slave_id (unit_id r)])"
    proof (intro allI impI)
      fix j assume j: "j < length (rs @ [r])" and nf: "\<not> first_of (rs @ [r]) j"
      show "Duplicate_slave_id (unit_id ((rs @ [r]) ! j))
              \<in> set (lg @ [Duplicate_slave_id (unit_id r)])"
      proof (cases "j < length rs")
        case True
        with nf dup show ?thesis by (simp add: nth_append first_of_append_lt)
      next
        case False
        with j have "j = length rs" by simp
        then show ?thesis by simp
      qed
    qed
    from step k' first' dup' show ?thesis by blast
  next
    case False
    with okf have okc: "succeeds (ClearBladeModbusProxySlaveContext r)"
      and rng: "0 \<le> unit_id r" "unit_id r \<le> 247" by simp_all
    from okc obtain c lgr where
      cr: "ClearBladeModbusProxySlaveContext r = Inr (c, lgr)"
      and cof: "context_of r = Some c"
      by (rule slave_context_succeeds)
    have newkey: "unit_id r \<notin> fst ` set m" using False keys by simp
    have "initialize_slaves_step r (first_seen (map unit_id rs), m, lg)
      = Inr (first_seen (map unit_id rs) @ [unit_id r], py_dict_set m (unit_id r) c, lg @ lgr)"
      using False rng by (simp add: initialize_slaves_step_def sid seen cr)
    then have step: "foldE initialize_slaves_step (rs @ [r]) ([], [], [])
      = Inr (first_seen (map unit_id (rs @ [r])), py_dict_set m (unit_id r) c, lg @ lgr)"
      using False by (simp add: foldE_append f first_seen_snoc)
    have k': "map fst (py_dict_set m (unit_id r) c) = first_seen (map unit_id (rs @ [r]))"
      using False km by (simp add: first_seen_snoc py_dict_set_def update_new_key [OF newkey])
    have first': "\<forall>k<length (rs @ [r]). first_of (rs @ [r]) k
               \<longrightarrow> map_of (py_dict_set m (unit_id r) c) (unit_id ((rs @ [r]) ! k))
                   = context_of ((rs @ [r]) ! k)"
    proof (intro allI impI)
      fix k assume k: "k < length (rs @ [r])" and fo: "first_of (rs @ [r]) k"
      show "map_of (py_dict_set m (unit_id r) c) (unit_id ((rs @ [r]) ! k))
                   = context_of ((rs @ [r]) ! k)"
      proof (cases "k < length rs")
        case True
        from True have "unit_id (rs ! k) \<in> unit_id ` set rs" by simp
        with False have "unit_id (rs ! k) \<noteq> unit_id r" by auto
        with first True fo show ?thesis
          by (simp add: nth_append py_dict_set_def update_conv' first_of_append_lt)
      next
        case False
        with k have "k = length rs" by simp
        then show ?thesis by (simp add: py_dict_set_def update_conv' cof)
      qed
    qed
    have dup': "\<forall>j<length (rs @ [r]). \<not> first_of (rs @ [r]) j
               \<longrightarrow> Duplicate_slave_id (unit_id ((rs @ [r]) ! j)) \<in> set (lg @ lgr)"
    proof (intro allI impI)
      fix j assume j: "j < length (rs @ [r])" and nf: "\<not> first_of (rs @ [r]) j"
      show "Duplicate_slave_id (unit_id ((rs @ [r]) ! j)) \<in> set (lg @ lgr)"
      proof (cases "j < length rs")
        case True
        with nf dup show ?thesis by (simp add: nth_append first_of_append_lt)
      next
        case False
        with j have jl: "j = length rs" by simp
        with nf \<open>unit_id r \<notin> unit_id ` set rs\<close> show ?thesis
          by (simp add: first_of_append_last)
      qed
    qed
    from step k' first' dup' show ?thesis by blast
  qed
qed

lemma initialize_slaves_fails:
  assumes "\<not> rows_initializable rows"
  shows "\<exists>e. foldE initialize_slaves_step rows ([], [], []) = Inl e"
  using assms
proof (induction rows rule: rev_induct)
  case Nil
  then show ?case by (simp add: rows_initializable_def)
next
  case (snoc r rs)
  show ?case
  proof (cases "rows_initializable rs")
    case False
    from snoc.IH [OF False] obtain e where
      "foldE initialize_slaves_step rs ([], [], []) = Inl e" ..
    then show ?thesis by (simp add: foldE_append)
  next
    case True
    from initialize_slaves_fold [OF True] obtain m lg where
      f: "foldE initialize_slaves_step rs ([], [], []) = Inr (first_seen (map unit_id rs), m, lg)"
      by (elim exE conjE) (rule that)
    have seen: "set (first_seen (map unit_id rs)) = unit_id ` set rs"
      by (simp add: set_first_seen)
    from snoc.prems True have bad:
      "\<not> succeeds (int_of_pyval (cfg_slave_id r))
       \<or> (unit_id r \<notin> unit_id ` set rs
           \<and> \<not> (succeeds (ClearBladeModbusProxySlaveContext r) \<and> 0 \<le> unit_id r \<and> unit_id r \<le> 247))"
      by (auto simp: rows_initializable_snoc)
    show ?thesis
    proof (cases "succeeds (int_of_pyval (cfg_slave_id r))")
      case False
      then obtain e where "int_of_pyval (cfg_slave_id r) = Inl e"
        by (auto simp: not_succeeds_iff)
      then have "initialize_slaves_step r (first_seen (map unit_id rs), m, lg) = Inl e"
        by (simp add: initialize_slaves_step_def)
      then show ?thesis by (simp add: foldE_append f)
    next
      case ok: True
      then have sid: "int_of_pyval (cfg_slave_id r) = Inr (unit_id r)" by (rule unit_id_converts)
      from bad ok have new: "unit_id r \<notin> unit_id ` set rs"
        and nb: "\<not> (succeeds (ClearBladeModbusProxySlaveContext r) \<and> 0 \<le> unit_id r \<and> unit_id r \<le> 247)"
        by auto
      show ?thesis
      proof (cases "ClearBladeModbusProxySlaveContext r")
        case (Inl e)
        with new have "initialize_slaves_step r (first_seen (map unit_id rs), m, lg) = Inl e"
          by (simp add: initialize_slaves_step_def sid seen)
        then show ?thesis by (simp add: foldE_append f)
      next
        case (Inr cl)
        obtain c lgr where "cl = (c, lgr)" by (cases cl)
        with Inr nb new have
          "initialize_slaves_step r (first_seen (map unit_id rs), m, lg) = Inl NoSuchSlaveException"
          by (auto simp: initialize_slaves_step_def sid seen)
        then show ?thesis by (simp add: foldE_append f)
      qed
    qed
  qed
qed

lemma py_int_fails: "\<not> int_literal s \<Longrightarrow> py_int s = Inl ValueError"
  by (auto simp: int_literal_def py_int_def Let_def split: if_splits)

lemma sparse_tag_only:
  assumes "map py_lower (take (length ''sparse'') f) = ''sparse''"
  shows "\<not> has_tag ''VendorName'' f" "\<not> has_tag ''ProductCode'' f" "\<not> has_tag ''VendorUrl'' f"
    "\<not> has_tag ''ProductName'' f" "\<not> has_tag ''ModelName'' f"
    "\<not> has_tag ''MajorMinorRevision'' f"
proof -
  from assms obtain c cs where f: "f = c # cs" and c: "py_lower c = CHR ''s''"
    by (cases f) auto
  have "py_lower (CHR ''V'') \<noteq> CHR ''s''" "py_lower (CHR ''P'') \<noteq> CHR ''s''"
    "py_lower (CHR ''M'') \<noteq> CHR ''s''"
    by code_simp+
  with c have "c \<noteq> CHR ''V''" "c \<noteq> CHR ''P''" "c \<noteq> CHR ''M''"
    by auto
  then show "\<not> has_tag ''VendorName'' f" "\<not> has_tag ''ProductCode'' f"
    "\<not> has_tag ''VendorUrl'' f" "\<not> has_tag ''ProductName'' f" "\<not> has_tag ''ModelName'' f"
    "\<not> has_tag ''MajorMinorRevision'' f"
    by (auto simp: has_tag_def f)
qed

lemma device_field_fails:
  assumes "\<not> device_field_ok f"
  shows "device_field f st = Inl ValueError"
proof -
  from assms have s: "map py_lower (take (length ''sparse'') f) = ''sparse''"
    and n: "\<not> int_literal (strip (after_tag ''sparse'' f))"
    by (auto simp: device_field_ok_def)
  from py_int_fails [OF n] sparse_tag_only [OF s] s show ?thesis
    by (simp add: device_field_def Let_def)
qed

lemma network_tag_only:
  assumes "has_tag TEMPLATE_PARSER_NOT_ZERO_MODE f"
  shows "\<not> has_tag TEMPLATE_PARSER_SLAVE_ID f"
proof -
  from has_tag_append [OF assms] obtain r where "f = TEMPLATE_PARSER_NOT_ZERO_MODE @ r" ..
  then show ?thesis
    by (simp add: has_tag_def TEMPLATE_PARSER_NOT_ZERO_MODE_def TEMPLATE_PARSER_SLAVE_ID_def)
qed

lemma network_field_fails:
  assumes "\<not> network_field_ok f"
  shows "network_field f st = Inl ValueError"
proof -
  from assms consider
      (a) "has_tag TEMPLATE_PARSER_SLAVE_ID f"
          "\<not> int_literal (strip (after_tag TEMPLATE_PARSER_SLAVE_ID f))"
    | (b) "has_tag TEMPLATE_PARSER_NOT_ZERO_MODE f"
          "\<not> int_literal (strip (after_tag TEMPLATE_PARSER_NOT_ZERO_MODE f))"
    by (auto simp: network_field_ok_def)
  then show ?thesis
  proof cases
    case a
    from py_int_fails [OF a(2)] a(1) show ?thesis by (simp add: network_field_def Let_def)
  next
    case b
    from py_int_fails [OF b(2)] b(1) network_tag_only [OF b(1)] show ?thesis
      by (simp add: network_field_def Let_def)
  qed
qed

lemma register_field_fails:
  assumes "\<not> register_field_ok f"
  shows "register_field f lst = Inl ValueError"
proof -
  obtain re tr st where lst: "lst = (re, tr, st)" by (cases lst)
  from assms consider
      (a) "has_tag TEMPLATE_PARSER_REG_UID f"
          "\<not> int_literal (strip (after_tag TEMPLATE_PARSER_REG_UID f))"
    | (b) "has_tag TEMPLATE_PARSER_REG_ADDRESS f"
          "\<not> int_literal (strip (after_tag TEMPLATE_PARSER_REG_ADDRESS f))"
    by (auto simp: register_field_ok_def)
  then show ?thesis
  proof cases
    case a
    from py_int_fails [OF a(2)] a(1) show ?thesis
      by (simp add: register_field_def Let_def lst)
  next
    case b
    from py_int_fails [OF b(2)] b(1) address_tag_only [OF b(1)] show ?thesis
      by (simp add: register_field_def Let_def lst)
  qed
qed

lemma foldE_fails:
  assumes "\<not> list_all ok xs"
    and "\<And>x t. ok x \<Longrightarrow> \<exists>t'. f x t = Inr t'"
    and "\<And>x t. \<not> ok x \<Longrightarrow> f x t = Inl e"
  shows "foldE f xs s = Inl e"
  using assms(1)
proof (induction xs arbitrary: s)
  case Nil
  then show ?case by simp
next
  case (Cons x xs)
  show ?case
  proof (cases "ok x")
    case True
    from assms(2) [OF True, of s] obtain t' where t: "f x s = Inr t'" ..
    from True Cons.prems have "\<not> list_all ok xs" by simp
    from Cons.IH [OF this, of t'] t show ?thesis by simp
  next
    case False
    from assms(3) [OF False, of s] show ?thesis by simp
  qed
qed

lemma parse_line_fails:
  assumes "\<not> line_ok line"
  shows "parse_line line st = Inl ValueError"
proof -
  from assms consider
      (d) "has_tag TEMPLATE_PARSER_DESC line"
          "\<not> list_all device_field_ok (py_split TEMPLATE_PARSER_SEPARATOR line)"
    | (n) "\<not> has_tag TEMPLATE_PARSER_DESC line" "has_tag TEMPLATE_PARSER_NETWORK line"
          "\<not> list_all network_field_ok (py_split TEMPLATE_PARSER_SEPARATOR line)"
    | (r) "\<not> has_tag TEMPLATE_PARSER_DESC line" "\<not> has_tag TEMPLATE_PARSER_NETWORK line"
          "has_tag TEMPLATE_PARSER_REGISTER_DEF line"
          "\<not> list_all register_field_ok (py_split TEMPLATE_PARSER_SEPARATOR line)"
    by (auto simp: line_ok_def split: if_splits)
  then show ?thesis
  proof cases
    case d
    have "foldE device_field (py_split TEMPLATE_PARSER_SEPARATOR line) st = Inl ValueError"
      by (rule foldE_fails [OF d(2)]) (simp_all add: device_field_total device_field_fails)
    with d(1) show ?thesis by (simp add: parse_line_def)
  next
    case n
    have "foldE network_field (py_split TEMPLATE_PARSER_SEPARATOR line) st = Inl ValueError"
      by (rule foldE_fails [OF n(3)]) (simp_all add: network_field_total network_field_fails)
    with n(1,2) show ?thesis by (simp add: parse_line_def)
  next
    case r
    have "foldE register_field (py_split TEMPLATE_PARSER_SEPARATOR line) (False, None, st)
            = Inl ValueError"
    proof (rule foldE_fails [OF r(4)])
      fix x and t :: "bool \<times> int option \<times> parse_state"
      assume "register_field_ok x"
      then show "\<exists>t'. register_field x t = Inr t'" by (rule register_field_total)
    next
      fix x and t :: "bool \<times> int option \<times> parse_state"
      assume "\<not> register_field_ok x"
      then show "register_field x t = Inl ValueError" by (rule register_field_fails)
    qed
    with r(1,2,3) show ?thesis by (simp add: parse_line_def)
  qed
qed

lemma parse_lines_fails:
  assumes "\<not> numeric_fields_ok config_file"
  shows "parse_lines config_file self = Inl ValueError"
  unfolding parse_lines_def
  by (rule foldE_fails [where ok = line_ok])
     (use assms in \<open>simp_all add: numeric_fields_ok_def parse_line_total parse_line_fails\<close>)






















lemma last_assigned_Nil: "last_assigned [] before = before"
  by (simp add: last_assigned_def)

lemma last_assigned_Cons:
  "last_assigned (x # xs) before =
     last_assigned xs (case x of None \<Rightarrow> before | Some v \<Rightarrow> Some v)"
  by (cases x; cases "filter (\<lambda>x. x \<noteq> None) xs") (simp_all add: last_assigned_def)

lemma assigned_to_append:
  "assigned_to p (xs @ ys) = assigned_to p xs @ assigned_to p ys"
  by (simp add: assigned_to_def)

lemma assigned_to_new:
  "assigned_to p [new_RegisterBlockConfig q a] = (if q = Some p then [(a, None)] else [])"
  by (simp add: assigned_to_def new_RegisterBlockConfig_def)

lemma assigned_to_set_address:
  "assigned_to p (set_address cur addr regs) =
     (if cur = Some p then map (\<lambda>x. (Some addr, snd x)) (assigned_to p regs)
      else assigned_to p regs)"
  by (induction regs) (auto simp: assigned_to_def set_address_def)

lemma assigned_to_set_register_type:
  "assigned_to p (set_register_type cur rt regs) =
     (if cur = Some p then map (\<lambda>x. (fst x, Some rt)) (assigned_to p regs)
      else assigned_to p regs)"
  by (induction regs) (auto simp: assigned_to_def set_register_type_def)

lemma assigned_to_defined:
  "assigned_to p regs \<noteq> [] \<longleftrightarrow> Some p \<in> set (param_ids regs)"
  by (induction regs) (auto simp: assigned_to_def param_ids_def)

lemma assigned_to_one:
  assumes "distinct (param_ids regs)" and "Some p \<in> set (param_ids regs)"
  shows "\<exists>a t. assigned_to p regs = [(a, t)]"
proof -
  from assms have "length (filter (\<lambda>reg. param_id reg = Some p) regs) = 1"
    unfolding param_ids_def by (intro distinct_filter_one) simp_all
  then have "length (assigned_to p regs) = 1" by (simp add: assigned_to_def)
  then obtain x where "assigned_to p regs = [x]"
    by (cases "assigned_to p regs") auto
  then show ?thesis by (cases x) auto
qed

lemma register_field_param_id:
  assumes "register_field c (re, cur, st) = Inr (re1, cur1, st1)"
    and "has_tag TEMPLATE_PARSER_REG_UID c"
    and "assigned_to p (ps_registers st) = [(a, t)]"
  shows "ps_self st1 = ps_self st"
    and "\<exists>q. py_int (strip (after_tag TEMPLATE_PARSER_REG_UID c)) = Inr q \<and> cur1 = Some q"
    and "assigned_to p (ps_registers st1) = [(a, t)]"
proof -
  from assms(1,2) obtain q where
    q: "py_int (strip (after_tag TEMPLATE_PARSER_REG_UID c)) = Inr q"
    by (auto simp: register_field_def Let_def split: sum.splits)
  from assms(3) have "assigned_to p (ps_registers st) \<noteq> []" by simp
  then have p: "Some p \<in> set (param_ids (ps_registers st))" by (simp add: assigned_to_defined)
  have new: "Some q \<notin> set (param_ids (ps_registers st)) \<Longrightarrow> q \<noteq> p" using p by auto
  from assms(1,2) q show "ps_self st1 = ps_self st"
    by (auto simp: register_field_def Let_def split: if_splits)
  from assms(1,2) q
  show "\<exists>q. py_int (strip (after_tag TEMPLATE_PARSER_REG_UID c)) = Inr q \<and> cur1 = Some q"
    by (auto simp: register_field_def Let_def split: if_splits)
  from assms(1,2) q have
    "ps_registers st1 = ps_registers st
     \<or> (Some q \<notin> set (param_ids (ps_registers st))
        \<and> ps_registers st1 = ps_registers st @ [new_RegisterBlockConfig (Some q) None])"
    by (auto simp: register_field_def Let_def list_ex_param_id split: if_splits)
  with new assms(3) show "assigned_to p (ps_registers st1) = [(a, t)]"
    by (auto simp: assigned_to_append assigned_to_new)
qed

lemma register_field_assigns:
  assumes "register_field c (re, cur, st) = Inr (re1, cur1, st1)"
    and "\<not> has_tag TEMPLATE_PARSER_REG_UID c"
    and "assigned_to p (ps_registers st) = [(a, t)]"
  shows "ps_self st1 = ps_self st" and "cur1 = cur"
    and "assigned_to p (ps_registers st1) =
           (if cur = Some p
            then [(case field_address (zero_mode (ps_self st)) c of
                     None \<Rightarrow> a | Some x \<Rightarrow> Some x,
                   case field_register_type c of None \<Rightarrow> t | Some x \<Rightarrow> Some x)]
            else [(a, t)])"
proof -
  consider (ad) "has_tag TEMPLATE_PARSER_REG_ADDRESS c"
    | (ty) "\<not> has_tag TEMPLATE_PARSER_REG_ADDRESS c" "has_tag TEMPLATE_PARSER_REG_TYPE c"
    | (ot) "\<not> has_tag TEMPLATE_PARSER_REG_ADDRESS c" "\<not> has_tag TEMPLATE_PARSER_REG_TYPE c"
    by blast
  then have "ps_self st1 = ps_self st \<and> cur1 = cur
    \<and> assigned_to p (ps_registers st1) =
           (if cur = Some p
            then [(case field_address (zero_mode (ps_self st)) c of
                     None \<Rightarrow> a | Some x \<Rightarrow> Some x,
                   case field_register_type c of None \<Rightarrow> t | Some x \<Rightarrow> Some x)]
            else [(a, t)])"
  proof cases
    case ad
    from assms(1,2) ad obtain v where
      v: "py_int (strip (after_tag TEMPLATE_PARSER_REG_ADDRESS c)) = Inr v"
      by (auto simp: register_field_def Let_def split: sum.splits)
    have ft: "field_register_type c = None" using ad by (simp add: field_register_type_def)
    define addr where "addr = (if zero_mode (ps_self st) then v else v + 1)"
    show ?thesis
    proof (cases "0 \<le> addr \<and> addr \<le> 99999")
      case True
      then have fa: "field_address (zero_mode (ps_self st)) c = Some addr"
        using assms(2) ad v by (simp add: field_address_def addr_def)
      from assms(1,2) ad v True have
        "ps_self st1 = ps_self st \<and> cur1 = cur
         \<and> (ps_registers st1 = set_address cur addr (ps_registers st)
            \<or> ps_registers st1 = set_address cur addr (ps_registers st)
                 @ [new_RegisterBlockConfig None (Some addr)])"
        by (auto simp: register_field_def Let_def addr_def split: if_splits)
      with assms(3) fa ft show ?thesis
        by (auto simp: assigned_to_append assigned_to_new assigned_to_set_address)
    next
      case False
      then have fa: "field_address (zero_mode (ps_self st)) c = None"
        using assms(2) ad v by (simp add: field_address_def addr_def)
      from assms(1,2) ad v False have
        "ps_self st1 = ps_self st \<and> cur1 = cur \<and> ps_registers st1 = ps_registers st"
        by (auto simp: register_field_def Let_def addr_def split: if_splits)
      with assms(3) fa ft show ?thesis by simp
    qed
  next
    case ty
    have fa: "field_address (zero_mode (ps_self st)) c = None"
      using ty by (simp add: field_address_def)
    from assms(1,2) ty have
      "ps_self st1 = ps_self st \<and> cur1 = cur
       \<and> ps_registers st1 =
           (case field_register_type c of
              None \<Rightarrow> ps_registers st
            | Some rt \<Rightarrow> set_register_type cur rt (ps_registers st))"
      by (auto simp: register_field_def Let_def field_register_type_def split: if_splits)
    with assms(3) fa show ?thesis
      by (cases "field_register_type c") (auto simp: assigned_to_set_register_type)
  next
    case ot
    have fa: "field_address (zero_mode (ps_self st)) c = None"
      using ot by (simp add: field_address_def)
    have ft: "field_register_type c = None" using ot by (simp add: field_register_type_def)
    from assms(1,2) ot have
      "ps_self st1 = ps_self st \<and> cur1 = cur \<and> ps_registers st1 = ps_registers st"
      by (auto simp: register_field_def Let_def)
    with assms(3) fa ft show ?thesis by simp
  qed
  then show "ps_self st1 = ps_self st" and "cur1 = cur"
    and "assigned_to p (ps_registers st1) =
           (if cur = Some p
            then [(case field_address (zero_mode (ps_self st)) c of
                     None \<Rightarrow> a | Some x \<Rightarrow> Some x,
                   case field_register_type c of None \<Rightarrow> t | Some x \<Rightarrow> Some x)]
            else [(a, t)])"
    by simp_all
qed

lemma register_fields_assign:
  assumes "foldE register_field cs (re, cur, st) = Inr (re', cur', st')"
    and "assigned_to p (ps_registers st) = [(a, t)]"
  shows "assigned_to p (ps_registers st') =
           [(last_assigned (map (field_address (zero_mode (ps_self st))) (fields_for p cur cs)) a,
             last_assigned (map field_register_type (fields_for p cur cs)) t)]"
  using assms
proof (induction cs arbitrary: re cur st a t)
  case Nil
  then show ?case by (simp add: last_assigned_Nil)
next
  case (Cons c cs)
  from Cons.prems(1) obtain re1 cur1 st1 where
    s: "register_field c (re, cur, st) = Inr (re1, cur1, st1)"
    and r: "foldE register_field cs (re1, cur1, st1) = Inr (re', cur', st')"
    by (auto split: sum.splits)
  show ?case
  proof (cases "has_tag TEMPLATE_PARSER_REG_UID c")
    case True
    from register_field_param_id [OF s True Cons.prems(2)] obtain q where
      self: "ps_self st1 = ps_self st"
      and q: "py_int (strip (after_tag TEMPLATE_PARSER_REG_UID c)) = Inr q" "cur1 = Some q"
      and a1: "assigned_to p (ps_registers st1) = [(a, t)]"
      by blast
    from Cons.IH [OF r a1] True q self show ?thesis by simp
  next
    case False
    note f = register_field_assigns [OF s False Cons.prems(2)]
    show ?thesis
    proof (cases "cur = Some p")
      case True
      with f(3) have a1: "assigned_to p (ps_registers st1) =
          [(case field_address (zero_mode (ps_self st)) c of None \<Rightarrow> a | Some x \<Rightarrow> Some x,
            case field_register_type c of None \<Rightarrow> t | Some x \<Rightarrow> Some x)]"
        by simp
      from Cons.IH [OF r a1] False True f(1,2) show ?thesis
        by (simp add: last_assigned_Cons)
    next
      case ne: False
      with f(3) have a1: "assigned_to p (ps_registers st1) = [(a, t)]" by simp
      from Cons.IH [OF r a1] False ne f(1,2) show ?thesis by simp
    qed
  qed
qed

lemma fields_for_unnamed:
  assumes "cur \<noteq> Some p"
    and "\<not> list_ex (\<lambda>c. has_tag TEMPLATE_PARSER_REG_UID c
                     \<and> py_int (strip (after_tag TEMPLATE_PARSER_REG_UID c)) = Inr p) cs"
  shows "fields_for p cur cs = []"
  using assms by (induction cs arbitrary: cur) (auto split: sum.splits)

lemma parse_line_unnamed:
  assumes "parse_line line s = Inr s'" and "\<not> names_param p line"
    and "assigned_to p (ps_registers s) = [(a, t)]"
  shows "assigned_to p (ps_registers s') = [(a, t)]"
proof (cases "register_line line")
  case False
  from parse_line_other [OF assms(1) False] assms(3) show ?thesis by simp
next
  case True
  with assms(1) obtain re tr where
    f: "foldE register_field (py_split TEMPLATE_PARSER_SEPARATOR line) (False, None, s)
          = Inr (re, tr, s')"
    by (auto simp: parse_line_def register_line_def split: sum.splits)
  from True assms(2) have
    "fields_for p None (py_split TEMPLATE_PARSER_SEPARATOR line) = []"
    by (intro fields_for_unnamed) (simp_all add: names_param_def)
  with register_fields_assign [OF f assms(3)] show ?thesis
    by (simp add: last_assigned_Nil)
qed

lemma parse_line_assigns:
  assumes pl: "parse_line line st1 = Inr st2" and rl: "register_line line"
    and d: "distinct (param_ids (ps_registers st1))"
    and o: "opens_with p line \<or> assigned_to p (ps_registers st1) \<noteq> []"
  shows "assigned_to p (ps_registers st2) =
           [(last_assigned
               (map (field_address (zero_mode (ps_self st1)))
                  (fields_for p None (py_split TEMPLATE_PARSER_SEPARATOR line)))
               (address_of p (ps_registers st1)),
             last_assigned
               (map field_register_type
                  (fields_for p None (py_split TEMPLATE_PARSER_SEPARATOR line)))
               (register_type_of p (ps_registers st1)))]"
proof -
  let ?cs = "py_split TEMPLATE_PARSER_SEPARATOR line"
  from pl rl obtain re tr where
    f: "foldE register_field ?cs (False, None, st1) = Inr (re, tr, st2)"
    by (auto simp: parse_line_def register_line_def split: sum.splits)
  show ?thesis
  proof (cases "assigned_to p (ps_registers st1) = []")
    case False
    then have "Some p \<in> set (param_ids (ps_registers st1))" by (simp add: assigned_to_defined)
    from assigned_to_one [OF d this] obtain a t where
      at: "assigned_to p (ps_registers st1) = [(a, t)]" by blast
    from register_fields_assign [OF f at] at show ?thesis
      by (simp add: address_of_def register_type_of_def)
  next
    case True
    with o have op: "opens_with p line" by simp
    obtain c cs where cs: "?cs = c # cs"
      using split_from_not_Nil [of TEMPLATE_PARSER_SEPARATOR "[]" line]
      by (cases ?cs) (simp_all add: py_split_def)
    from rl have "has_tag TEMPLATE_PARSER_REG_UID line"
      by (simp add: register_line_def TEMPLATE_PARSER_REGISTER_DEF_def TEMPLATE_PARSER_REG_UID_def)
    from has_tag_first_field [OF this, of TEMPLATE_PARSER_SEPARATOR] cs
    have tag: "has_tag TEMPLATE_PARSER_REG_UID c"
      by (simp add: TEMPLATE_PARSER_REG_UID_def TEMPLATE_PARSER_SEPARATOR_def)
    from op cs have pid: "py_int (strip (after_tag TEMPLATE_PARSER_REG_UID c)) = Inr p"
      by (simp add: opens_with_def)
    from True have np: "Some p \<notin> set (param_ids (ps_registers st1))"
      using assigned_to_defined [of p "ps_registers st1"] by simp
    define s where
      "s = st1\<lparr>ps_registers := ps_registers st1 @ [new_RegisterBlockConfig (Some p) None]\<rparr>"
    from tag pid np have first: "register_field c (False, None, st1) = Inr (True, Some p, s)"
      by (simp add: register_field_def Let_def list_ex_param_id s_def)
    with f cs have r: "foldE register_field cs (True, Some p, s) = Inr (re, tr, st2)" by simp
    have at: "assigned_to p (ps_registers s) = [(None, None)]"
      using True by (simp add: s_def assigned_to_append assigned_to_new)
    have self: "ps_self s = ps_self st1" by (simp add: s_def)
    from register_fields_assign [OF r at] True tag pid cs self show ?thesis
      by (simp add: address_of_def register_type_of_def)
  qed
qed

lemma parse_lines_last_assignment:
  assumes s1: "foldE parse_line ls1 \<lparr>ps_self = self, ps_registers = [], ps_log = []\<rparr> = Inr st1"
    and st: "foldE parse_line (ls1 @ line # ls2)
               \<lparr>ps_self = self, ps_registers = [], ps_log = []\<rparr> = Inr st"
    and rl: "register_line line"
    and o: "opens_with p line \<or> assigned_to p (ps_registers st1) \<noteq> []"
    and un: "list_all (\<lambda>l. \<not> names_param p l) ls2"
  shows "assigned_to p (ps_registers st) =
           [(last_assigned
               (map (field_address (zero_mode (ps_self st1)))
                  (fields_for p None (py_split TEMPLATE_PARSER_SEPARATOR line)))
               (address_of p (ps_registers st1)),
             last_assigned
               (map field_register_type
                  (fields_for p None (py_split TEMPLATE_PARSER_SEPARATOR line)))
               (register_type_of p (ps_registers st1)))]"
proof -
  from st s1 obtain st2 where
    l: "parse_line line st1 = Inr st2" and r: "foldE parse_line ls2 st2 = Inr st"
    by (auto simp: foldE_append split: sum.splits)
  have d: "distinct (param_ids (ps_registers st1))"
    by (rule foldE_invariant [OF s1, where P = "\<lambda>s. distinct (param_ids (ps_registers s))"])
       (simp_all add: param_ids_def [symmetric] parse_line_distinct, simp add: param_ids_def)
  note a2 = parse_line_assigns [OF l rl d o]
  show ?thesis
  proof (rule foldE_invariant [OF r, where P = "\<lambda>s. assigned_to p (ps_registers s) = _"])
    show "assigned_to p (ps_registers st2) =
           [(last_assigned
               (map (field_address (zero_mode (ps_self st1)))
                  (fields_for p None (py_split TEMPLATE_PARSER_SEPARATOR line)))
               (address_of p (ps_registers st1)),
             last_assigned
               (map field_register_type
                  (fields_for p None (py_split TEMPLATE_PARSER_SEPARATOR line)))
               (register_type_of p (ps_registers st1)))]"
      by (rule a2)
  next
    fix x and t t' :: parse_state
    assume "x \<in> set ls2" and "parse_line x t = Inr t'"
      and "assigned_to p (ps_registers t) =
           [(last_assigned
               (map (field_address (zero_mode (ps_self st1)))
                  (fields_for p None (py_split TEMPLATE_PARSER_SEPARATOR line)))
               (address_of p (ps_registers st1)),
             last_assigned
               (map field_register_type
                  (fields_for p None (py_split TEMPLATE_PARSER_SEPARATOR line)))
               (register_type_of p (ps_registers st1)))]"
    with un show "assigned_to p (ps_registers t') =
           [(last_assigned
               (map (field_address (zero_mode (ps_self st1)))
                  (fields_for p None (py_split TEMPLATE_PARSER_SEPARATOR line)))
               (address_of p (ps_registers st1)),
             last_assigned
               (map field_register_type
                  (fields_for p None (py_split TEMPLATE_PARSER_SEPARATOR line)))
               (register_type_of p (ps_registers st1)))]"
      by (intro parse_line_unnamed [of x t t' p]) (simp_all add: list_all_iff)
  qed
qed

section \<open>The sequential block on concrete requests\<close>

text \<open>
  C1. A sequential \<open>getValues\<close> inside the domain of the block should return
  \<open>count\<close> values. The block built from the addresses 5, 7 and 9 covers 5 to 8; the
  request for one value at address 5, with the row of address 5 returned by the
  collection, raises IndexError, because the read indexes the returned rows by the
  absolute address. On a block that starts at 0 and holds three values, the request for
  all three with all three rows returned raises IndexError as well, because the list of
  timestamps is one shorter than the list of values.
\<close>

theorem C1_getValues_in_domain_raises:
  "setup_sequential_block [Some 5, Some 7, Some 9] TYPE_HOLDING_REGISTER
     = Inr (Some (Sequential example_block))
   \<and> seq_getValues example_context example_block [data_at 5 11] 5 1 = Inl IndexError
   \<and> CbModbusSequentialDataBlock ''hr'' 0 [0, 0, 0]
     = Inr \<lparr>sq_address = 0, sq_values = [0, 0, 0], sq_timestamps = [None, None],
            sq_register_type = ''hr''\<rparr>
   \<and> seq_getValues example_context
       \<lparr>sq_address = 0, sq_values = [0, 0, 0], sq_timestamps = [None, None],
        sq_register_type = ''hr''\<rparr>
       [data_at 0 11, data_at 1 12, data_at 2 13] 0 3 = Inl IndexError"
  by code_simp

text \<open>
  C2. A sequential read with gap filling enabled should fill the missing addresses
  with the fill value. The read of three addresses from 0 with the rows of 0 and 2
  returned inserts the fill entry for address 1 and then raises KeyError on its
  timestamp; the read of five addresses with three rows returned raises IndexError at
  the first address past the rows; and with gap filling disabled a row missing at the
  end raises IndexError, not the data integrity error.
\<close>

theorem C2_gap_fill_raises:
  "read_collection_data example_context ''hr'' 0 3 (Fill_Int 0) [data_at 0 10, data_at 2 30]
     = Inl KeyError
   \<and> read_collection_data example_context ''hr'' 0 5 (Fill_Int 0)
       [data_at 0 10, data_at 1 20, data_at 2 30] = Inl IndexError
   \<and> read_collection_data example_context ''hr'' 0 3 Fill_None [data_at 0 10, data_at 1 20]
     = Inl IndexError"
  by code_simp

text \<open>
  C3. A sequential \<open>setValues\<close> should send one update per written address. Writing
  the two values 1 and 2 at address 5 overwrites the cache and sends no update; writing
  the single value 7 at address 0 of a block that starts at 0 sends no update either;
  writing three values at address 0 sends the first two only.
\<close>

theorem C3_setValues_misses_writes:
  "seq_setValues example_context example_block 5 (Many [1, 2])
     = Inr (example_block\<lparr>sq_values := [1, 2, 0, 0]\<rparr>, [])
   \<and> seq_setValues example_context (example_block\<lparr>sq_address := 0\<rparr>) 0 (Single 7)
     = Inr (example_block\<lparr>sq_address := 0, sq_values := [7, 0, 0, 0]\<rparr>, [])
   \<and> seq_setValues example_context (example_block\<lparr>sq_address := 0\<rparr>) 0 (Many [1, 2, 3])
     = Inr (example_block\<lparr>sq_address := 0, sq_values := [1, 2, 3, 0]\<rparr>,
            [write_collection_data example_context ''hr'' 0 1,
             write_collection_data example_context ''hr'' 1 2])"
  by code_simp

text \<open>
  C6. The timestamps of a sequential block should be parallel to its values. The
  block constructed at address 5 with four values has three timestamps, and
  \<open>get_timestamps\<close> for the four addresses of the block returns three entries.
\<close>

theorem C6_timestamps_one_short:
  "CbModbusSequentialDataBlock ''hr'' 5 [0, 0, 0, 0] = Inr example_block
   \<and> length (sq_values example_block) = 4
   \<and> length (sq_timestamps example_block) = 3
   \<and> seq_get_timestamps example_block 5 4 = [None, None, None]"
  by code_simp

section \<open>The template parser on concrete templates\<close>

text \<open>
  C7. A descriptor whose register type is never validly assigned should contribute
  to no block. The template with two descriptors of the unsupported type bogus, at the
  addresses 5 and 9, logs the two errors and builds a coil block from the two
  addresses.
\<close>

theorem C7_untyped_descriptor_becomes_coil:
  "parse_config
     (''paramId=1;address=5;registerType=bogus'' @ newline
      @ ''paramId=2;address=9;registerType=bogus'') example_context
   = Inr (example_context
            \<lparr>store := [(''h'', None), (''i'', None), (''d'', None),
                        (''c'', Some (Sequential (example_block\<lparr>sq_register_type := ''co''\<rparr>)))]\<rparr>,
          [Unsupported_register_type ''bogus'', Unsupported_register_type ''bogus''])"
  by code_simp




section \<open>The sequential block of a register type\<close>

text \<open>
  C5. A non-empty list of valid addresses of one register type should give a
  sequential block with the least address as its base and a value 0 for every address
  from the least up to, and not including, the greatest. With at least two distinct
  addresses it does, and the position of the greatest address is past the end of the
  values; the addresses 5, 7 and 9 give the base 5 and the value 0 at the addresses 6
  and 8; an empty list gives no block. With one distinct address the list of values is
  empty and the construction raises IndexError: the single address 5 gives no block
  with base 5.
\<close>

theorem C5_sequential_block_span:
  "(addrs \<noteq> [] \<and> register_type \<in> set REGISTER_TYPES \<and> Min (set addrs) < Max (set addrs) \<longrightarrow>
     (\<exists>b. setup_sequential_block (map Some addrs) register_type = Inr (Some (Sequential b))
        \<and> sq_address b = Min (set addrs)
        \<and> sq_values b = replicate (nat (Max (set addrs) - Min (set addrs))) 0
        \<and> (\<forall>a. Min (set addrs) \<le> a \<and> a < Max (set addrs)
              \<longrightarrow> py_index (sq_values b) (a - sq_address b) = Inr 0)
        \<and> py_index (sq_values b) (Max (set addrs) - sq_address b) = Inl IndexError))
   \<and> (addrs \<noteq> [] \<and> register_type \<in> set REGISTER_TYPES \<and> Min (set addrs) = Max (set addrs) \<longrightarrow>
        setup_sequential_block (map Some addrs) register_type = Inl IndexError)
   \<and> setup_sequential_block [] register_type = Inr None
   \<and> setup_sequential_block [Some 5, Some 7, Some 9] TYPE_HOLDING_REGISTER
       = Inr (Some (Sequential example_block))
   \<and> py_index (sq_values example_block) (6 - sq_address example_block) = Inr 0
   \<and> py_index (sq_values example_block) (8 - sq_address example_block) = Inr 0
   \<and> setup_sequential_block [Some 5] TYPE_HOLDING_REGISTER = Inl IndexError"
proof -
  have gen: "\<exists>b. setup_sequential_block (map Some addrs) register_type = Inr (Some (Sequential b))
        \<and> sq_address b = Min (set addrs)
        \<and> sq_values b = replicate (nat (Max (set addrs) - Min (set addrs))) 0
        \<and> (\<forall>a. Min (set addrs) \<le> a \<and> a < Max (set addrs)
              \<longrightarrow> py_index (sq_values b) (a - sq_address b) = Inr 0)
        \<and> py_index (sq_values b) (Max (set addrs) - sq_address b) = Inl IndexError"
    if ne: "addrs \<noteq> []" and rt: "register_type \<in> set REGISTER_TYPES"
      and lt: "Min (set addrs) < Max (set addrs)"
  proof -
    have inside: "py_index (replicate (nat (Max (set addrs) - Min (set addrs))) (0::int))
                    (a - Min (set addrs)) = Inr 0"
      if "Min (set addrs) \<le> a" "a < Max (set addrs)" for a
      using that by (intro py_index_replicate) auto
    have outside: "py_index (replicate (nat (Max (set addrs) - Min (set addrs))) (0::int))
                    (Max (set addrs) - Min (set addrs)) = Inl IndexError"
      using lt by (intro py_index_past_end) simp
    show ?thesis
      using setup_sequential_block_result [OF ne rt lt] inside outside by simp
  qed
  have one: "setup_sequential_block (map Some addrs) register_type = Inl IndexError"
    if "addrs \<noteq> []" "register_type \<in> set REGISTER_TYPES" "Min (set addrs) = Max (set addrs)"
    using that by (rule setup_sequential_block_one_address)
  have e1: "setup_sequential_block [] register_type = Inr None"
    by (simp add: setup_sequential_block_def)
  have e2: "setup_sequential_block [Some 5, Some 7, Some 9] TYPE_HOLDING_REGISTER
       = Inr (Some (Sequential example_block))" by code_simp
  have e3: "py_index (sq_values example_block) (6 - sq_address example_block) = Inr 0" by code_simp
  have e4: "py_index (sq_values example_block) (8 - sq_address example_block) = Inr 0" by code_simp
  have e5: "setup_sequential_block [Some 5] TYPE_HOLDING_REGISTER = Inl IndexError" by code_simp
  show ?thesis using gen one e1 e2 e3 e4 e5 by blast
qed

text \<open>
  The theorem at the addresses 5, 7 and 9 of the holding registers, and at the single
  address 5.
\<close>

theorem C5_sequential_block_span_witness:
  "[5, 7, 9 :: int] \<noteq> [] \<and> ''hr'' \<in> set REGISTER_TYPES
   \<and> Min (set [5, 7, 9 :: int]) < Max (set [5, 7, 9])
   \<and> (\<exists>b. setup_sequential_block (map Some [5, 7, 9]) ''hr'' = Inr (Some (Sequential b))
        \<and> sq_address b = 5 \<and> sq_values b = [0, 0, 0, 0])
   \<and> [5 :: int] \<noteq> [] \<and> Min (set [5 :: int]) = Max (set [5])
   \<and> setup_sequential_block (map Some [5]) ''hr'' = Inl IndexError"
proof -
  have h: "[5, 7, 9 :: int] \<noteq> [] \<and> ''hr'' \<in> set REGISTER_TYPES" by code_simp
  have m: "Min (set [5, 7, 9 :: int]) = 5" "Max (set [5, 7, 9 :: int]) = 9" by simp_all
  have r: "replicate (nat (9 - 5)) (0::int) = [0, 0, 0, 0]" by code_simp
  have g: "\<exists>b. setup_sequential_block (map Some [5, 7, 9]) ''hr'' = Inr (Some (Sequential b))
        \<and> sq_address b = 5 \<and> sq_values b = [0, 0, 0, 0]"
    using C5_sequential_block_span [of "[5, 7, 9]" "''hr''"] h
    unfolding m r by simp blast
  have h1: "[5 :: int] \<noteq> [] \<and> ''hr'' \<in> set REGISTER_TYPES \<and> Min (set [5 :: int]) = Max (set [5])"
    using h by simp
  have o: "setup_sequential_block (map Some [5]) ''hr'' = Inl IndexError"
    using C5_sequential_block_span [of "[5]" "''hr''"] h1 by blast
  from h m g h1 o show ?thesis by simp
qed

section \<open>The sparse block\<close>

text \<open>
  C10. In a sparse context the read of the collection never fails and returns
  exactly the addresses of the rows it got, with nothing filled in. \<open>getValues\<close> of a
  sparse block then raises KeyError whenever an address of the requested range is not
  a key of the block: merging the values read changes no key, and the result is looked
  up address by address.
\<close>

theorem C10_sparse_getValues_missing_address:
  assumes "sparse context"
    and "\<exists>a\<in>set (py_range address (address + count)). Some a \<notin> fst ` set (sp_values self)"
  shows "sparse_getValues context self items address count = Inl KeyError
       \<and> (\<exists>vals tss lg.
             read_collection_data context (sp_register_type self) address count (Fill_Int 0) items
               = Inr ((PyDict vals, PyDict tss), lg)
             \<and> fst ` set vals = register_address ` set items)"
proof -
  have "sparse_getValues context self items address count = Inl KeyError"
    using sparse_getValues_cases [OF assms(1), of address count self items] assms(2) by simp
  moreover have "\<exists>vals tss lg.
             read_collection_data context (sp_register_type self) address count (Fill_Int 0) items
               = Inr ((PyDict vals, PyDict tss), lg)
             \<and> fst ` set vals = register_address ` set items"
    using read_collection_data_sparse [OF assms(1), of "sp_register_type self" address count
        "Fill_Int 0" items]
    by (elim exE conjE) (intro exI conjI)
  ultimately show ?thesis by simp
qed

text \<open>
  The theorem on the block with the addresses 5, 7 and 9, for the three addresses from
  5, with the rows of 5 and 7 returned: the address 6 is not a key.
\<close>

theorem C10_sparse_getValues_missing_address_witness:
  "sparse example_sparse_context
   \<and> (\<exists>a\<in>set (py_range 5 (5 + 3)). Some a \<notin> fst ` set (sp_values example_sparse_block))
   \<and> sparse_getValues example_sparse_context example_sparse_block [data_at 5 11, data_at 7 13] 5 3
       = Inl KeyError"
proof -
  have h1: "sparse example_sparse_context" by code_simp
  have h2: "\<exists>a\<in>set (py_range 5 (5 + 3)). Some a \<notin> fst ` set (sp_values example_sparse_block)"
    by code_simp
  from C10_sparse_getValues_missing_address [OF h1 h2, of "[data_at 5 11, data_at 7 13]"] h1 h2
  show ?thesis by simp
qed

section \<open>The server context\<close>

text \<open>
  C9, as stated: for every list of configuration rows the server context holds one
  slave context per distinct unit id. The list of the one row of unit id 3 whose
  template has a parameter id that is not a number raises ValueError, and the list of
  the one row of unit id 250 with an empty template raises NoSuchSlaveException: there
  is no mapping.
\<close>

theorem C9_rows_that_abort:
  "initialize_slaves
     [\<lparr>cfg_ip_address = ''192.168.1.200'', cfg_ip_port = Int_val 502, cfg_slave_id = Int_val 3,
       cfg_config_file = ''paramId=abc''\<rparr>] = Inl ValueError
   \<and> initialize_slaves
       [\<lparr>cfg_ip_address = ''192.168.1.200'', cfg_ip_port = Int_val 502,
         cfg_slave_id = Int_val 250, cfg_config_file = []\<rparr>] = Inl NoSuchSlaveException"
  by code_simp

text \<open>
  C9, as amended. \<open>_initialize_slaves\<close> returns exactly when the rows can be
  initialised: the unit id of every row converts, and every row that is the first with
  its unit id has a unit id from 0 to 247 and a slave context that can be constructed.
  The mapping then has the distinct unit ids of the rows as its keys, in the order in
  which they are first seen, one entry per unit id; the entry of a unit id is the slave
  context constructed from the first row with that unit id; and every row that is not
  the first with its unit id is logged as a duplicate and changes nothing.
\<close>

theorem C9_one_slave_context_per_unit_id:
  "(rows_initializable rows \<longrightarrow>
      (\<exists>slaves lg. initialize_slaves rows = Inr (slaves, lg)
         \<and> map fst slaves = first_seen (map unit_id rows)
         \<and> distinct (map fst slaves)
         \<and> set (map fst slaves) = unit_id ` set rows
         \<and> (\<forall>k<length rows. first_of rows k
               \<longrightarrow> context_of (rows ! k) \<noteq> None
                   \<and> map_of slaves (unit_id (rows ! k)) = context_of (rows ! k))
         \<and> (\<forall>j<length rows. \<not> first_of rows j
               \<longrightarrow> Duplicate_slave_id (unit_id (rows ! j)) \<in> set lg)))
   \<and> (\<not> rows_initializable rows \<longrightarrow> \<not> succeeds (initialize_slaves rows))"
proof (intro conjI impI)
  assume ok: "rows_initializable rows"
  from initialize_slaves_fold [OF ok] obtain m lg where
    f: "foldE initialize_slaves_step rows ([], [], []) = Inr (first_seen (map unit_id rows), m, lg)"
    and km: "map fst m = first_seen (map unit_id rows)"
    and first: "\<forall>k<length rows. first_of rows k
               \<longrightarrow> map_of m (unit_id (rows ! k)) = context_of (rows ! k)"
    and dup: "\<forall>j<length rows. \<not> first_of rows j
               \<longrightarrow> Duplicate_slave_id (unit_id (rows ! j)) \<in> set lg"
    by (elim exE conjE) (rule that)
  have r: "initialize_slaves rows = Inr (m, lg)"
    by (simp add: initialize_slaves_def f)
  have d: "distinct (map fst m)" by (simp add: km distinct_first_seen)
  have s: "set (map fst m) = unit_id ` set rows" by (simp add: km set_first_seen)
  have first': "\<forall>k<length rows. first_of rows k
               \<longrightarrow> context_of (rows ! k) \<noteq> None
                   \<and> map_of m (unit_id (rows ! k)) = context_of (rows ! k)"
  proof (intro allI impI)
    fix k assume k: "k < length rows" and fo: "first_of rows k"
    from ok k fo have "succeeds (ClearBladeModbusProxySlaveContext (rows ! k))"
      by (simp add: rows_initializable_def list_all_iff)
    then obtain c lgc where "context_of (rows ! k) = Some c"
      by (rule slave_context_succeeds)
    with first k fo
    show "context_of (rows ! k) \<noteq> None
            \<and> map_of m (unit_id (rows ! k)) = context_of (rows ! k)" by simp
  qed
  from r km d s first' dup
  show "\<exists>slaves lg. initialize_slaves rows = Inr (slaves, lg)
         \<and> map fst slaves = first_seen (map unit_id rows)
         \<and> distinct (map fst slaves)
         \<and> set (map fst slaves) = unit_id ` set rows
         \<and> (\<forall>k<length rows. first_of rows k
               \<longrightarrow> context_of (rows ! k) \<noteq> None
                   \<and> map_of slaves (unit_id (rows ! k)) = context_of (rows ! k))
         \<and> (\<forall>j<length rows. \<not> first_of rows j
               \<longrightarrow> Duplicate_slave_id (unit_id (rows ! j)) \<in> set lg)"
    by blast
next
  assume "\<not> rows_initializable rows"
  from initialize_slaves_fails [OF this] obtain e where
    "foldE initialize_slaves_step rows ([], [], []) = Inl e" ..
  then show "\<not> succeeds (initialize_slaves rows)"
    by (simp add: initialize_slaves_def)
qed

text \<open>
  The theorem on three rows with the unit ids 3, 4 and 3, where the template of the
  third row cannot be parsed: the mapping has the keys 3 and 4, the entry of 3 comes
  from the first row and the third row is logged. With the third row alone the rows
  cannot be initialised and nothing is returned.
\<close>

theorem C9_one_slave_context_per_unit_id_witness:
  "rows_initializable example_rows
   \<and> (\<exists>slaves lg. initialize_slaves example_rows = Inr (slaves, lg)
        \<and> map fst slaves = [3, 4]
        \<and> map_of slaves 3 = context_of (example_rows ! 0)
        \<and> Duplicate_slave_id 3 \<in> set lg)
   \<and> \<not> rows_initializable [example_rows ! 2]
   \<and> \<not> succeeds (initialize_slaves [example_rows ! 2])"
proof -
  have h: "rows_initializable example_rows" by code_simp
  have ids: "first_seen (map unit_id example_rows) = [3, 4]" by code_simp
  have u0: "unit_id (example_rows ! 0) = 3" by code_simp
  have u2: "unit_id (example_rows ! 2) = 3" by code_simp
  have f0: "first_of example_rows 0" by code_simp
  have f2: "\<not> first_of example_rows 2" by code_simp
  have len: "length example_rows = 3" by code_simp
  note ex = mp [OF conjunct1 [OF C9_one_slave_context_per_unit_id [of example_rows]] h]
  from ex obtain slaves lg where
    r: "initialize_slaves example_rows = Inr (slaves, lg)"
    and k: "map fst slaves = first_seen (map unit_id example_rows)"
    and first: "\<forall>k<length example_rows. first_of example_rows k
               \<longrightarrow> context_of (example_rows ! k) \<noteq> None
                   \<and> map_of slaves (unit_id (example_rows ! k)) = context_of (example_rows ! k)"
    and dup: "\<forall>j<length example_rows. \<not> first_of example_rows j
               \<longrightarrow> Duplicate_slave_id (unit_id (example_rows ! j)) \<in> set lg"
    by (elim exE conjE) (rule that)
  from first [rule_format, of 0] have a: "map_of slaves 3 = context_of (example_rows ! 0)"
    by (simp add: len u0 f0)
  from dup [rule_format, of 2] have b: "Duplicate_slave_id 3 \<in> set lg"
    by (simp add: len u2 f2)
  have n: "\<not> rows_initializable [example_rows ! 2]" by code_simp
  note n' = mp [OF conjunct2 [OF C9_one_slave_context_per_unit_id [of "[example_rows ! 2]"]] n]
  from h r k ids a b n n' show ?thesis by auto
qed

section \<open>Descriptors and parameter ids\<close>

text \<open>
  C8, as stated: every template in which several register definition lines share a
  parameter id gives one descriptor for it. The template with two lines for the
  parameter id 12, the second with an address that is not a number, raises ValueError
  in the loop over the lines: there is no descriptor.
\<close>

theorem C8_shared_paramId_aborts:
  "parse_lines example_merge_abort_template example_context = Inl ValueError
   \<and> parse_config example_merge_abort_template example_context = Inl ValueError"
  by code_simp

text \<open>
  C8, as amended. The loop over the lines raises ValueError when some numeric field
  of the template is not an integer literal. Otherwise it returns a list of
  descriptors in which no two have the same parameter id, and in which exactly one
  descriptor has the parameter id with which any register definition line of the
  template opens, however many lines give that id. The last assignment wins: for a
  register definition line and a parameter id with which the line opens, or which has
  a descriptor before the line, after any number of further lines none of which names
  the parameter id, the descriptors of the parameter id are one, whose address is the
  last address that the fields for the parameter id in the line assign, or the address
  from before the line when they assign none, and whose register type is the last
  register type that these fields assign, or the one from before the line; when no
  line is left, this is the state that the loop returns. The template with
  the line \<open>paramId=12;address=42;registerType=holding\<close> followed by the line
  \<open>paramId=12;registerType=coil\<close> gives the one descriptor with parameter id 12,
  address 42 and the register type of coils; the template that gives the parameter id
  12 the addresses 42, 43 and 44 and the register types holding, coil and analog
  gives it the address 44 and the register type of analog inputs.
\<close>

theorem C8_one_descriptor_per_paramId:
  "(\<not> numeric_fields_ok config_file \<longrightarrow> parse_lines config_file self = Inl ValueError)
   \<and> (numeric_fields_ok config_file \<longrightarrow>
        (\<exists>st. parse_lines config_file self = Inr st
           \<and> distinct (param_ids (ps_registers st))
           \<and> (\<forall>line p.
                 line \<in> set (splitlines config_file) \<and> opens_with p line
                 \<longrightarrow> length (filter (\<lambda>reg. param_id reg = Some p) (ps_registers st)) = 1)
           \<and> (\<forall>ls1 line ls2 ls3 st1 st2 p.
                     splitlines config_file = ls1 @ line # ls2 @ ls3
                     \<and> foldE parse_line ls1 \<lparr>ps_self = self, ps_registers = [], ps_log = []\<rparr>
                         = Inr st1
                     \<and> foldE parse_line (ls1 @ line # ls2)
                          \<lparr>ps_self = self, ps_registers = [], ps_log = []\<rparr> = Inr st2
                     \<and> register_line line
                     \<and> (opens_with p line \<or> assigned_to p (ps_registers st1) \<noteq> [])
                     \<and> list_all (\<lambda>l. \<not> names_param p l) ls2
                     \<longrightarrow> assigned_to p (ps_registers st2) =
                           [(last_assigned
                               (map (field_address (zero_mode (ps_self st1)))
                                  (fields_for p None (py_split TEMPLATE_PARSER_SEPARATOR line)))
                               (address_of p (ps_registers st1)),
                             last_assigned
                               (map field_register_type
                                  (fields_for p None (py_split TEMPLATE_PARSER_SEPARATOR line)))
                               (register_type_of p (ps_registers st1)))]
                         \<and> (ls3 = [] \<longrightarrow> st2 = st))))
   \<and> parse_lines example_merge_template example_context
       = Inr \<lparr>ps_self = example_context,
              ps_registers =
                [\<lparr>param_id = Some 12, reg_address = Some 42,
                  reg_register_type = Some TYPE_COIL, block_size = 1\<rparr>],
              ps_log = []\<rparr>
   \<and> parse_lines example_reassign_template example_context
       = Inr \<lparr>ps_self = example_context,
              ps_registers =
                [\<lparr>param_id = Some 12, reg_address = Some 44,
                  reg_register_type = Some TYPE_INPUT_REGISTER, block_size = 1\<rparr>,
                 \<lparr>param_id = Some 7, reg_address = Some 1,
                  reg_register_type = Some TYPE_INPUT_REGISTER, block_size = 1\<rparr>],
              ps_log = []\<rparr>"
proof (intro conjI)
  show "\<not> numeric_fields_ok config_file \<longrightarrow> parse_lines config_file self = Inl ValueError"
    by (simp add: parse_lines_fails)
next
  show "numeric_fields_ok config_file \<longrightarrow>
        (\<exists>st. parse_lines config_file self = Inr st
           \<and> distinct (param_ids (ps_registers st))
           \<and> (\<forall>line p.
                 line \<in> set (splitlines config_file) \<and> opens_with p line
                 \<longrightarrow> length (filter (\<lambda>reg. param_id reg = Some p) (ps_registers st)) = 1)
           \<and> (\<forall>ls1 line ls2 ls3 st1 st2 p.
                     splitlines config_file = ls1 @ line # ls2 @ ls3
                     \<and> foldE parse_line ls1 \<lparr>ps_self = self, ps_registers = [], ps_log = []\<rparr>
                         = Inr st1
                     \<and> foldE parse_line (ls1 @ line # ls2)
                          \<lparr>ps_self = self, ps_registers = [], ps_log = []\<rparr> = Inr st2
                     \<and> register_line line
                     \<and> (opens_with p line \<or> assigned_to p (ps_registers st1) \<noteq> [])
                     \<and> list_all (\<lambda>l. \<not> names_param p l) ls2
                     \<longrightarrow> assigned_to p (ps_registers st2) =
                           [(last_assigned
                               (map (field_address (zero_mode (ps_self st1)))
                                  (fields_for p None (py_split TEMPLATE_PARSER_SEPARATOR line)))
                               (address_of p (ps_registers st1)),
                             last_assigned
                               (map field_register_type
                                  (fields_for p None (py_split TEMPLATE_PARSER_SEPARATOR line)))
                               (register_type_of p (ps_registers st1)))]
                         \<and> (ls3 = [] \<longrightarrow> st2 = st)))"
  proof
    assume "numeric_fields_ok config_file"
    then obtain st where st: "parse_lines config_file self = Inr st"
      using parse_lines_total by blast
    have d: "distinct (param_ids (ps_registers st))" using st by (rule parse_lines_distinct)
    have one: "\<forall>line p.
                 line \<in> set (splitlines config_file) \<and> opens_with p line
                 \<longrightarrow> length (filter (\<lambda>reg. param_id reg = Some p) (ps_registers st)) = 1"
    proof (intro allI impI)
      fix line p
      assume "line \<in> set (splitlines config_file) \<and> opens_with p line"
      then have "Some p \<in> set (param_ids (ps_registers st))"
        by (intro parse_lines_defines [OF st, of line]) (simp_all add: opens_with_def)
      with d show "length (filter (\<lambda>reg. param_id reg = Some p) (ps_registers st)) = 1"
        unfolding param_ids_def by (intro distinct_filter_one) simp_all
    qed
    have last: "\<forall>ls1 line ls2 ls3 st1 st2 p.
                  splitlines config_file = ls1 @ line # ls2 @ ls3
                  \<and> foldE parse_line ls1 \<lparr>ps_self = self, ps_registers = [], ps_log = []\<rparr>
                      = Inr st1
                  \<and> foldE parse_line (ls1 @ line # ls2)
                       \<lparr>ps_self = self, ps_registers = [], ps_log = []\<rparr> = Inr st2
                  \<and> register_line line
                  \<and> (opens_with p line \<or> assigned_to p (ps_registers st1) \<noteq> [])
                  \<and> list_all (\<lambda>l. \<not> names_param p l) ls2
                  \<longrightarrow> assigned_to p (ps_registers st2) =
                        [(last_assigned
                            (map (field_address (zero_mode (ps_self st1)))
                               (fields_for p None (py_split TEMPLATE_PARSER_SEPARATOR line)))
                            (address_of p (ps_registers st1)),
                          last_assigned
                            (map field_register_type
                               (fields_for p None (py_split TEMPLATE_PARSER_SEPARATOR line)))
                            (register_type_of p (ps_registers st1)))]
                      \<and> (ls3 = [] \<longrightarrow> st2 = st)"
    proof (intro allI impI conjI)
      fix ls1 line ls2 ls3 p and st1 st2 :: parse_state
      assume a: "splitlines config_file = ls1 @ line # ls2 @ ls3
                 \<and> foldE parse_line ls1 \<lparr>ps_self = self, ps_registers = [], ps_log = []\<rparr>
                     = Inr st1
                 \<and> foldE parse_line (ls1 @ line # ls2)
                      \<lparr>ps_self = self, ps_registers = [], ps_log = []\<rparr> = Inr st2
                 \<and> register_line line
                 \<and> (opens_with p line \<or> assigned_to p (ps_registers st1) \<noteq> [])
                 \<and> list_all (\<lambda>l. \<not> names_param p l) ls2"
      show "assigned_to p (ps_registers st2) =
                       [(last_assigned
                           (map (field_address (zero_mode (ps_self st1)))
                              (fields_for p None (py_split TEMPLATE_PARSER_SEPARATOR line)))
                           (address_of p (ps_registers st1)),
                         last_assigned
                           (map field_register_type
                              (fields_for p None (py_split TEMPLATE_PARSER_SEPARATOR line)))
                           (register_type_of p (ps_registers st1)))]"
        by (rule parse_lines_last_assignment [of ls1 self st1 line ls2 st2 p])
           (use a in simp_all)
      assume "ls3 = []"
      with a st show "st2 = st" by (simp add: parse_lines_def)
    qed
    from st d one last show "\<exists>st. parse_lines config_file self = Inr st
           \<and> distinct (param_ids (ps_registers st))
           \<and> (\<forall>line p.
                 line \<in> set (splitlines config_file) \<and> opens_with p line
                 \<longrightarrow> length (filter (\<lambda>reg. param_id reg = Some p) (ps_registers st)) = 1)
           \<and> (\<forall>ls1 line ls2 ls3 st1 st2 p.
                     splitlines config_file = ls1 @ line # ls2 @ ls3
                     \<and> foldE parse_line ls1 \<lparr>ps_self = self, ps_registers = [], ps_log = []\<rparr>
                         = Inr st1
                     \<and> foldE parse_line (ls1 @ line # ls2)
                          \<lparr>ps_self = self, ps_registers = [], ps_log = []\<rparr> = Inr st2
                     \<and> register_line line
                     \<and> (opens_with p line \<or> assigned_to p (ps_registers st1) \<noteq> [])
                     \<and> list_all (\<lambda>l. \<not> names_param p l) ls2
                     \<longrightarrow> assigned_to p (ps_registers st2) =
                           [(last_assigned
                               (map (field_address (zero_mode (ps_self st1)))
                                  (fields_for p None (py_split TEMPLATE_PARSER_SEPARATOR line)))
                               (address_of p (ps_registers st1)),
                             last_assigned
                               (map field_register_type
                                  (fields_for p None (py_split TEMPLATE_PARSER_SEPARATOR line)))
                               (register_type_of p (ps_registers st1)))]
                         \<and> (ls3 = [] \<longrightarrow> st2 = st))"
      by (intro exI [of _ st] conjI)
  qed
next
  show "parse_lines example_merge_template example_context
       = Inr \<lparr>ps_self = example_context,
              ps_registers =
                [\<lparr>param_id = Some 12, reg_address = Some 42,
                  reg_register_type = Some TYPE_COIL, block_size = 1\<rparr>],
              ps_log = []\<rparr>"
    by code_simp
next
  show "parse_lines example_reassign_template example_context
       = Inr \<lparr>ps_self = example_context,
              ps_registers =
                [\<lparr>param_id = Some 12, reg_address = Some 44,
                  reg_register_type = Some TYPE_INPUT_REGISTER, block_size = 1\<rparr>,
                 \<lparr>param_id = Some 7, reg_address = Some 1,
                  reg_register_type = Some TYPE_INPUT_REGISTER, block_size = 1\<rparr>],
              ps_log = []\<rparr>"
    by code_simp
qed

text \<open>
  The theorem on the template that gives the parameter id 12 three addresses, at its
  last line: the loop returns, exactly one descriptor has the parameter id 12, and its
  address and register type are the last ones assigned, 44 and the register type of
  analog inputs; \<open>_parse_config\<close> returns on this template. The theorem on the
  template with the address x: the loop raises ValueError.
\<close>

theorem C8_one_descriptor_per_paramId_witness:
  "numeric_fields_ok example_reassign_template
   \<and> (\<exists>st. parse_lines example_reassign_template example_context = Inr st
        \<and> distinct (param_ids (ps_registers st))
        \<and> length (filter (\<lambda>reg. param_id reg = Some 12) (ps_registers st)) = 1
        \<and> assigned_to 12 (ps_registers st) = [(Some 44, Some TYPE_INPUT_REGISTER)])
   \<and> succeeds (parse_config example_reassign_template example_context)
   \<and> \<not> numeric_fields_ok example_merge_abort_template
   \<and> parse_lines example_merge_abort_template example_context = Inl ValueError"
proof -
  let ?l1 = "''paramId=12;address=42;address=43;registerType=holding''"
  let ?l2 = "''paramId=7;address=1;registerType=analog''"
  let ?l3 = "''paramId=12;address=44;registerType=coil;registerType=analog''"
  let ?st1 = "\<lparr>ps_self = example_context,
               ps_registers =
                 [\<lparr>param_id = Some 12, reg_address = Some 43,
                   reg_register_type = Some TYPE_HOLDING_REGISTER, block_size = 1\<rparr>,
                  \<lparr>param_id = Some 7, reg_address = Some 1,
                   reg_register_type = Some TYPE_INPUT_REGISTER, block_size = 1\<rparr>],
               ps_log = []\<rparr>"
  have h: "numeric_fields_ok example_reassign_template" by code_simp
  have sp: "splitlines example_reassign_template = [?l1, ?l2] @ ?l3 # []" by code_simp
  have s1: "foldE parse_line [?l1, ?l2]
              \<lparr>ps_self = example_context, ps_registers = [], ps_log = []\<rparr> = Inr ?st1"
    by code_simp
  have rl: "register_line ?l3" by code_simp
  have o: "opens_with 12 ?l3" by code_simp
  have m: "?l3 \<in> set (splitlines example_reassign_template)" by (simp add: sp)
  have va: "last_assigned
              (map (field_address (zero_mode (ps_self ?st1)))
                 (fields_for 12 None (py_split TEMPLATE_PARSER_SEPARATOR ?l3)))
              (address_of 12 (ps_registers ?st1)) = Some 44"
    by code_simp
  have vt: "last_assigned
              (map field_register_type
                 (fields_for 12 None (py_split TEMPLATE_PARSER_SEPARATOR ?l3)))
              (register_type_of 12 (ps_registers ?st1)) = Some TYPE_INPUT_REGISTER"
    by code_simp
  note ex = mp [OF conjunct1 [OF conjunct2
        [OF C8_one_descriptor_per_paramId [of example_reassign_template example_context]]] h]
  from ex obtain st where
    st: "parse_lines example_reassign_template example_context = Inr st"
    and d: "distinct (param_ids (ps_registers st))"
    and one: "\<forall>line p.
                 line \<in> set (splitlines example_reassign_template) \<and> opens_with p line
                 \<longrightarrow> length (filter (\<lambda>reg. param_id reg = Some p) (ps_registers st)) = 1"
    and last: "\<forall>ls1 line ls2 ls3 st1 st2 p.
                 splitlines example_reassign_template = ls1 @ line # ls2 @ ls3
                 \<and> foldE parse_line ls1 \<lparr>ps_self = example_context, ps_registers = [], ps_log = []\<rparr>
                     = Inr st1
                 \<and> foldE parse_line (ls1 @ line # ls2)
                      \<lparr>ps_self = example_context, ps_registers = [], ps_log = []\<rparr> = Inr st2
                 \<and> register_line line
                 \<and> (opens_with p line \<or> assigned_to p (ps_registers st1) \<noteq> [])
                 \<and> list_all (\<lambda>l. \<not> names_param p l) ls2
                 \<longrightarrow> assigned_to p (ps_registers st2) =
                       [(last_assigned
                           (map (field_address (zero_mode (ps_self st1)))
                              (fields_for p None (py_split TEMPLATE_PARSER_SEPARATOR line)))
                           (address_of p (ps_registers st1)),
                         last_assigned
                           (map field_register_type
                              (fields_for p None (py_split TEMPLATE_PARSER_SEPARATOR line)))
                           (register_type_of p (ps_registers st1)))]
                     \<and> (ls3 = [] \<longrightarrow> st2 = st)"
    by (elim exE conjE) (rule that)
  from one [rule_format, of ?l3 12] m o
  have l1: "length (filter (\<lambda>reg. param_id reg = Some 12) (ps_registers st)) = 1" by simp
  from st sp have s2: "foldE parse_line ([?l1, ?l2] @ ?l3 # [])
      \<lparr>ps_self = example_context, ps_registers = [], ps_log = []\<rparr> = Inr st"
    by (simp add: parse_lines_def)
  from last [rule_format, of "[?l1, ?l2]" ?l3 "[]" "[]" ?st1 st 12] sp s1 s2 rl o
  have "assigned_to 12 (ps_registers st) =
          [(last_assigned
              (map (field_address (zero_mode (ps_self ?st1)))
                 (fields_for 12 None (py_split TEMPLATE_PARSER_SEPARATOR ?l3)))
              (address_of 12 (ps_registers ?st1)),
            last_assigned
              (map field_register_type
                 (fields_for 12 None (py_split TEMPLATE_PARSER_SEPARATOR ?l3)))
              (register_type_of 12 (ps_registers ?st1)))]"
    by simp
  then have a: "assigned_to 12 (ps_registers st) = [(Some 44, Some TYPE_INPUT_REGISTER)]"
    by (simp only: va vt)
  have pc: "succeeds (parse_config example_reassign_template example_context)" by code_simp
  have n: "\<not> numeric_fields_ok example_merge_abort_template" by code_simp
  note bad = mp [OF conjunct1
        [OF C8_one_descriptor_per_paramId [of example_merge_abort_template example_context]] n]
  from st d l1 a have "\<exists>st. parse_lines example_reassign_template example_context = Inr st
        \<and> distinct (param_ids (ps_registers st))
        \<and> length (filter (\<lambda>reg. param_id reg = Some 12) (ps_registers st)) = 1
        \<and> assigned_to 12 (ps_registers st) = [(Some 44, Some TYPE_INPUT_REGISTER)]"
    by blast
  with h pc n bad show ?thesis by (intro conjI)
qed

end
